theory Spec2Isabelle
  imports Main "HOL-Library.Word" "HOL-Library.Sublist"
begin

section \<open>Bytes, buffers and JavaScript values\<close>

text \<open>
  A Node.js \<open>Buffer\<close> is a window on a block of memory. The contents of a buffer are a
  list of bytes; JavaScript numbers that hold offsets, counts and indices are modelled
  as \<open>int\<close> (all of them are integers here, and a magnitude that a double cannot hold
  exactly is far outside every buffer, where a read raises in any case). A JavaScript
  string is a list of 16-bit code units. An exception is the left summand of a result.
\<close>

type_synonym byte = "8 word"
type_synonym jsstring = "16 word list"

datatype exn = RangeError | TypeError | Error

type_synonym 'a result = "exn + 'a"

definition bindR :: "'a result \<Rightarrow> ('a \<Rightarrow> 'b result) \<Rightarrow> 'b result" where
  "bindR r f = (case r of Inl e \<Rightarrow> Inl e | Inr x \<Rightarrow> f x)"

text \<open>A loop that pushes \<open>f x\<close> for each \<open>x\<close> in turn; the first exception ends it.\<close>

fun mapR :: "('a \<Rightarrow> 'b result) \<Rightarrow> 'a list \<Rightarrow> 'b list result" where
  "mapR f [] = Inr []"
| "mapR f (x # xs) = bindR (f x) (\<lambda>y. bindR (mapR f xs) (\<lambda>ys. Inr (y # ys)))"

text \<open>The code units of an ASCII literal.\<close>

definition js :: "string \<Rightarrow> jsstring" where
  "js s = map (\<lambda>c. of_nat (of_char c)) s"

text \<open>The bytes of an ASCII literal (\<open>Buffer.from(s, 'utf-8')\<close> on ASCII text).\<close>

definition ascii :: "string \<Rightarrow> byte list" where
  "ascii s = map (\<lambda>c. of_nat (of_char c)) s"


text \<open>
  \<open>buf.slice(start, end)\<close>: a negative index counts from the end, both indices are
  clamped to the buffer, and an end before the start gives the empty buffer.
\<close>

definition slice_idx :: "int \<Rightarrow> int \<Rightarrow> int" where
  "slice_idx n i = (if i < 0 then max (n + i) 0 else min i n)"

definition slice_bytes :: "byte list \<Rightarrow> int \<Rightarrow> int \<Rightarrow> byte list" where
  "slice_bytes bs s e =
     (let n = int (length bs); s' = slice_idx n s; e' = slice_idx n e
      in take (nat (e' - s')) (drop (nat s') bs))"

text \<open>\<open>buf.indexOf(v)\<close>: the first index holding \<open>v\<close>, or \<open>-1\<close>.\<close>

fun indexOf :: "byte list \<Rightarrow> byte \<Rightarrow> int" where
  "indexOf [] v = -1"
| "indexOf (b # bs) v = (if b = v then 0 else (let r = indexOf bs v in if r = -1 then -1 else r + 1))"

text \<open>\<open>buf.toString('latin1')\<close>: every byte is one code unit of the same number.\<close>

definition latin1 :: "byte list \<Rightarrow> jsstring" where
  "latin1 bs = map ucast bs"

section \<open>utils: the session text\<close>

subsection \<open>translateYamlData\<close>

definition YAML_TRANSLATER :: "(byte \<times> byte) list" where
  "YAML_TRANSLATER = [(0x81, 0x20), (0x8d, 0x20), (0x8f, 0x20), (0x90, 0x20), (0x9d, 0x20)]"

text \<open>The inner loop: every element equal to \<open>from\<close> is overwritten with \<open>to\<close>.\<close>

definition replaceByte :: "byte \<Rightarrow> byte \<Rightarrow> byte list \<Rightarrow> byte list" where
  "replaceByte from to buffer = map (\<lambda>b. if b = from then to else b) buffer"

definition translateYamlData :: "byte list \<Rightarrow> jsstring" where
  "translateYamlData data =
     (let buffer = foldl (\<lambda>buf (from, to). replaceByte from to buf) data YAML_TRANSLATER;
          nullIndex = indexOf buffer 0;
          buffer' = (if nullIndex \<noteq> -1 then slice_bytes buffer 0 nullIndex else buffer)
      in latin1 buffer')"

subsection \<open>extractYamlSection\<close>





subsection \<open>parseIRSDKYaml\<close>

text \<open>The character class \<open>[\x00-\x08\x0B-\x0C\x0E-\x1F\x7F]\<close>.\<close>

definition nonPrintable :: "16 word \<Rightarrow> bool" where
  "nonPrintable c = (c \<le> 0x08 \<or> c = 0x0B \<or> c = 0x0C \<or> (0x0E \<le> c \<and> c \<le> 0x1F) \<or> c = 0x7F)"

text \<open>What \<open>.\<close> does not match: the line terminators.\<close>

definition lineTerminator :: "16 word \<Rightarrow> bool" where
  "lineTerminator c = (c = 0x0A \<or> c = 0x0D \<or> c = 0x2028 \<or> c = 0x2029)"

text \<open>The character class \<open>\w\<close>: letters, digits and the underscore.\<close>

definition wordChar :: "16 word \<Rightarrow> bool" where
  "wordChar c = ((0x41 \<le> c \<and> c \<le> 0x5A) \<or> (0x61 \<le> c \<and> c \<le> 0x7A) \<or> (0x30 \<le> c \<and> c \<le> 0x39) \<or> c = 0x5F)"

text \<open>The inner replacement: a backslash before each quote, backslash and newline.\<close>

definition escapeValue :: "jsstring \<Rightarrow> jsstring" where
  "escapeValue v = concat (map (\<lambda>c. if c = 0x22 \<or> c = 0x5C \<or> c = 0x0A then [0x5C, c] else [c]) v)"

definition nameKeys :: "jsstring list" where
  "nameKeys = [js ''DriverSetupName: '', js ''UserName: '', js ''TeamName: '',
               js ''AbbrevName: '', js ''Initials: '']"

text \<open>
  The global replacement of \<open>((?:DriverSetupName|...|Initials): )(.*)\<close>: at the first
  position where one of the keys stands, the rest of the line is escaped and put in
  quotes, and the search goes on after that line.
\<close>

function quoteNames :: "jsstring \<Rightarrow> jsstring" where
  "quoteNames [] = []"
| "quoteNames (c # cs) =
     (case find (\<lambda>k. prefix k (c # cs)) nameKeys of
        Some k \<Rightarrow>
          (let rest = drop (length k) (c # cs);
               v = takeWhile (\<lambda>x. \<not> lineTerminator x) rest
           in k @ [0x22] @ escapeValue v @ [0x22]
                @ quoteNames (dropWhile (\<lambda>x. \<not> lineTerminator x) rest))
      | None \<Rightarrow> c # quoteNames cs)"
  by pat_completeness auto
termination
proof (relation "measure length", goal_cases)
  case 1
  show ?case by simp
next
  case (2 c cs)
  show ?case by simp
next
  case (3 c cs k rest)
  have "k \<in> set nameKeys"
    using 3(1) by (auto simp: find_Some_iff)
  then have "k \<noteq> []"
    by (auto simp: nameKeys_def js_def)
  then have "length (c # cs) - length k < length (c # cs)"
    by (cases k) auto
  moreover have "length (dropWhile (\<lambda>x. \<not> lineTerminator x) rest) \<le> length rest"
    by (rule length_dropWhile_le)
  ultimately show ?case
    using 3(2) by simp
qed

text \<open>
  The global replacement of \<open>(\w+: )(,.*)\<close> by \<open>$1"$2"\<close>: where a run of word characters
  is followed by a colon, a space and a comma, the text from the comma to the end of the
  line is put in quotes, and the search goes on after that line.
\<close>

function quoteComma :: "jsstring \<Rightarrow> jsstring" where
  "quoteComma [] = []"
| "quoteComma (c # cs) =
     (let w = takeWhile wordChar (c # cs);
          r = dropWhile wordChar (c # cs)
      in if w \<noteq> [] \<and> prefix (js '': ,'') r
         then w @ js '': '' @ [0x22] @ takeWhile (\<lambda>x. \<not> lineTerminator x) (drop 2 r) @ [0x22]
                @ quoteComma (dropWhile (\<lambda>x. \<not> lineTerminator x) (drop 2 r))
         else c # quoteComma cs)"
  by pat_completeness auto
termination
proof (relation "measure length", goal_cases)
  case 1
  show ?case by simp
next
  case (2 c cs w r)
  have "length r \<le> length (c # cs)"
    unfolding 2(2) by (rule length_dropWhile_le)
  moreover have "3 \<le> length r"
    using 2(3) by (auto simp: js_def prefix_def)
  moreover have "length (dropWhile (\<lambda>x. \<not> lineTerminator x) (drop 2 r)) \<le> length (drop 2 r)"
    by (rule length_dropWhile_le)
  ultimately show ?case by simp
next
  case 3
  show ?case by simp
qed

definition cleanYaml :: "jsstring \<Rightarrow> jsstring" where
  "cleanYaml yamlStr = quoteComma (quoteNames (filter (\<lambda>c. \<not> nonPrintable c) yamlStr))"

text \<open>
  \<open>yaml.load\<close> belongs to the js-yaml library: it is a parameter, a function that either
  throws or returns a document. The result of \<open>parseIRSDKYaml\<close> is \<open>Inl\<close> when an
  exception reaches the caller, \<open>Inr None\<close> for \<open>null\<close>.
\<close>

definition parseIRSDKYaml :: "(jsstring \<Rightarrow> 'e + 'y) \<Rightarrow> jsstring \<Rightarrow> 'e + 'y option" where
  "parseIRSDKYaml load yamlStr =
     (case load (cleanYaml yamlStr) of
        Inr doc \<Rightarrow> Inr (Some doc)
      | Inl error \<Rightarrow> Inr None)"

section \<open>Memory and typed reads\<close>

text \<open>
  Several buffers can be windows on one block of memory (\<open>buf.slice\<close> makes such a window,
  it does not copy), and the simulator writes to the live region while the reader holds
  it. So memory is a store of blocks, and a buffer names a block, where its window
  starts, and how long it is.
\<close>

type_synonym heap = "nat \<Rightarrow> byte list"

record buffer =
  mem :: nat
  byteOffset :: nat
  byteLength :: nat

definition bytes :: "heap \<Rightarrow> buffer \<Rightarrow> byte list" where
  "bytes h b = take (byteLength b) (drop (byteOffset b) (h (mem b)))"

definition slice :: "buffer \<Rightarrow> int \<Rightarrow> int \<Rightarrow> buffer" where
  "slice b s e =
     (let n = int (byteLength b); s' = slice_idx n s; e' = slice_idx n e
      in \<lparr>mem = mem b, byteOffset = byteOffset b + nat s', byteLength = nat (e' - s')\<rparr>)"

text \<open>A write of one byte into a block, as the simulator does to the live region.\<close>

definition poke :: "heap \<Rightarrow> nat \<Rightarrow> nat \<Rightarrow> byte \<Rightarrow> heap" where
  "poke h r i v = h(r := (h r)[i := v])"

text \<open>
  The values a read can give. A float is kept as the bit pattern that IEEE-754 decodes:
  \<open>Float32 0x41200000\<close> is 10.0.
\<close>

datatype jsval =
    Undefined
  | Null
  | Num int
  | Bool bool
  | Float32 "32 word"
  | Float64 "64 word"
  | Array "jsval list"

text \<open>The number that a run of bytes is in little-endian order.\<close>

fun le_int :: "byte list \<Rightarrow> int" where
  "le_int [] = 0"
| "le_int (b # bs) = uint b + 256 * le_int bs"

text \<open>Node checks the offset of every read and throws a \<open>RangeError\<close> outside the buffer.\<close>

definition inRange :: "byte list \<Rightarrow> int \<Rightarrow> nat \<Rightarrow> bool" where
  "inRange bs off n = (0 \<le> off \<and> off + int n \<le> int (length bs))"

definition field :: "byte list \<Rightarrow> int \<Rightarrow> nat \<Rightarrow> byte list" where
  "field bs off n = take n (drop (nat off) bs)"

definition readUInt8 :: "byte list \<Rightarrow> int \<Rightarrow> int result" where
  "readUInt8 bs off = (if inRange bs off 1 then Inr (le_int (field bs off 1)) else Inl RangeError)"

definition readUInt32LE :: "byte list \<Rightarrow> int \<Rightarrow> int result" where
  "readUInt32LE bs off = (if inRange bs off 4 then Inr (le_int (field bs off 4)) else Inl RangeError)"

definition readInt32LE :: "byte list \<Rightarrow> int \<Rightarrow> int result" where
  "readInt32LE bs off =
     (if inRange bs off 4
      then (let u = le_int (field bs off 4) in Inr (if u < 2 ^ 31 then u else u - 2 ^ 32))
      else Inl RangeError)"

definition readFloatLE :: "byte list \<Rightarrow> int \<Rightarrow> 32 word result" where
  "readFloatLE bs off = (if inRange bs off 4 then Inr (word_of_int (le_int (field bs off 4))) else Inl RangeError)"

definition readDoubleLE :: "byte list \<Rightarrow> int \<Rightarrow> 64 word result" where
  "readDoubleLE bs off = (if inRange bs off 8 then Inr (word_of_int (le_int (field bs off 8))) else Inl RangeError)"

section \<open>structs\<close>

record IRSDKStruct =
  s_sharedMem :: buffer
  s_offset :: int

definition getValue :: "heap \<Rightarrow> 'a IRSDKStruct_scheme \<Rightarrow> int \<Rightarrow> char \<Rightarrow> jsval result" where
  "getValue h s offset type =
     (let absoluteOffset = s_offset s + offset; m = bytes h (s_sharedMem s)
      in if type = CHR ''i'' then bindR (readInt32LE m absoluteOffset) (\<lambda>n. Inr (Num n))
         else if type = CHR ''I'' then bindR (readUInt32LE m absoluteOffset) (\<lambda>n. Inr (Num n))
         else if type = CHR ''f'' then bindR (readFloatLE m absoluteOffset) (\<lambda>w. Inr (Float32 w))
         else if type = CHR ''d'' then bindR (readDoubleLE m absoluteOffset) (\<lambda>w. Inr (Float64 w))
         else if type = CHR ''?'' then bindR (readUInt8 m absoluteOffset) (\<lambda>n. Inr (Bool (n \<noteq> 0)))
         else if type = CHR ''c'' then bindR (readUInt8 m absoluteOffset) (\<lambda>n. Inr (Num n))
         else Inl Error)"

text \<open>The getters typed \<open>number\<close> that read with \<open>getValue(offset, 'i')\<close>.\<close>

definition getNumber :: "heap \<Rightarrow> 'a IRSDKStruct_scheme \<Rightarrow> int \<Rightarrow> int result" where
  "getNumber h s offset =
     bindR (getValue h s offset CHR ''i'') (\<lambda>v. case v of Num n \<Rightarrow> Inr n | _ \<Rightarrow> Inl TypeError)"

definition getStringValue :: "heap \<Rightarrow> 'a IRSDKStruct_scheme \<Rightarrow> int \<Rightarrow> int \<Rightarrow> jsstring" where
  "getStringValue h s offset maxLength =
     (let absoluteOffset = s_offset s + offset;
          buffer = slice_bytes (bytes h (s_sharedMem s)) absoluteOffset (absoluteOffset + maxLength);
          nullIndex = indexOf buffer 0;
          actualBuffer = (if nullIndex = -1 then buffer else slice_bytes buffer 0 nullIndex)
      in latin1 actualBuffer)"

subsection \<open>VarBuffer\<close>

record VarBuffer = IRSDKStruct +
  v_bufLen :: int
  v_isFrozen :: bool
  v_frozenMemory :: "buffer option"

definition new_VarBuffer :: "buffer \<Rightarrow> int \<Rightarrow> int \<Rightarrow> VarBuffer" where
  "new_VarBuffer sharedMem offset bufLen =
     \<lparr>s_sharedMem = sharedMem, s_offset = offset, v_bufLen = bufLen, v_isFrozen = False,
      v_frozenMemory = None\<rparr>"

definition VarBuffer_tickCount :: "heap \<Rightarrow> VarBuffer \<Rightarrow> int result" where
  "VarBuffer_tickCount h vb = getNumber h vb 0"

text \<open>The getter \<open>_bufOffset\<close>: the offset as the region holds it.\<close>

definition VarBuffer_rawBufOffset :: "heap \<Rightarrow> VarBuffer \<Rightarrow> int result" where
  "VarBuffer_rawBufOffset h vb = getNumber h vb 4"

definition VarBuffer_bufOffset :: "heap \<Rightarrow> VarBuffer \<Rightarrow> int result" where
  "VarBuffer_bufOffset h vb = (if v_isFrozen vb then Inr 0 else VarBuffer_rawBufOffset h vb)"

definition VarBuffer_isMemoryFrozen :: "VarBuffer \<Rightarrow> bool" where
  "VarBuffer_isMemoryFrozen vb = v_isFrozen vb"

definition VarBuffer_freeze :: "heap \<Rightarrow> VarBuffer \<Rightarrow> VarBuffer result" where
  "VarBuffer_freeze h vb =
     bindR (VarBuffer_rawBufOffset h vb) (\<lambda>bo.
       Inr (vb\<lparr>v_frozenMemory := Some (slice (s_sharedMem vb) bo (bo + v_bufLen vb)),
               v_isFrozen := True\<rparr>))"

definition VarBuffer_unfreeze :: "VarBuffer \<Rightarrow> VarBuffer" where
  "VarBuffer_unfreeze vb = vb\<lparr>v_frozenMemory := None, v_isFrozen := False\<rparr>"

definition VarBuffer_getMemory :: "VarBuffer \<Rightarrow> buffer" where
  "VarBuffer_getMemory vb =
     (case v_frozenMemory vb of
        Some frozen \<Rightarrow> (if v_isFrozen vb then frozen else s_sharedMem vb)
      | None \<Rightarrow> s_sharedMem vb)"

subsection \<open>Header\<close>

definition Header_version :: "heap \<Rightarrow> IRSDKStruct \<Rightarrow> int result" where
  "Header_version h s = getNumber h s 0"

definition Header_status :: "heap \<Rightarrow> IRSDKStruct \<Rightarrow> int result" where
  "Header_status h s = getNumber h s 4"

definition Header_tickRate :: "heap \<Rightarrow> IRSDKStruct \<Rightarrow> int result" where
  "Header_tickRate h s = getNumber h s 8"

definition Header_sessionInfoUpdate :: "heap \<Rightarrow> IRSDKStruct \<Rightarrow> int result" where
  "Header_sessionInfoUpdate h s = getNumber h s 12"

definition Header_sessionInfoLen :: "heap \<Rightarrow> IRSDKStruct \<Rightarrow> int result" where
  "Header_sessionInfoLen h s = getNumber h s 16"

definition Header_sessionInfoOffset :: "heap \<Rightarrow> IRSDKStruct \<Rightarrow> int result" where
  "Header_sessionInfoOffset h s = getNumber h s 20"

definition Header_numVars :: "heap \<Rightarrow> IRSDKStruct \<Rightarrow> int result" where
  "Header_numVars h s = getNumber h s 24"

definition Header_varHeaderOffset :: "heap \<Rightarrow> IRSDKStruct \<Rightarrow> int result" where
  "Header_varHeaderOffset h s = getNumber h s 28"

definition Header_numBuf :: "heap \<Rightarrow> IRSDKStruct \<Rightarrow> int result" where
  "Header_numBuf h s = getNumber h s 32"

definition Header_bufLen :: "heap \<Rightarrow> IRSDKStruct \<Rightarrow> int result" where
  "Header_bufLen h s = getNumber h s 36"

text \<open>
  The getter \<open>varBuf\<close> makes its list anew at each call: one \<open>VarBuffer\<close> for each
  \<open>i < numBuf\<close>. The loop reads \<open>numBuf\<close> before each round and \<open>bufLen\<close> in each round.
\<close>

definition Header_varBuf :: "heap \<Rightarrow> IRSDKStruct \<Rightarrow> VarBuffer list result" where
  "Header_varBuf h s =
     bindR (Header_numBuf h s) (\<lambda>n.
       if 0 < n
       then bindR (Header_bufLen h s) (\<lambda>bufLen.
              Inr (map (\<lambda>i. new_VarBuffer (s_sharedMem s) (48 + int i * 16) bufLen) [0..<nat n]))
       else Inr [])"

subsection \<open>VarHeader\<close>

definition VarHeader_type :: "heap \<Rightarrow> IRSDKStruct \<Rightarrow> int result" where
  "VarHeader_type h s = getNumber h s 0"

definition VarHeader_offset :: "heap \<Rightarrow> IRSDKStruct \<Rightarrow> int result" where
  "VarHeader_offset h s = getNumber h s 4"

definition VarHeader_count :: "heap \<Rightarrow> IRSDKStruct \<Rightarrow> int result" where
  "VarHeader_count h s = getNumber h s 8"

definition VarHeader_countAsTime :: "heap \<Rightarrow> IRSDKStruct \<Rightarrow> jsval result" where
  "VarHeader_countAsTime h s = getValue h s 12 CHR ''?''"

definition VarHeader_name :: "heap \<Rightarrow> IRSDKStruct \<Rightarrow> jsstring" where
  "VarHeader_name h s = getStringValue h s 16 32"

definition VarHeader_desc :: "heap \<Rightarrow> IRSDKStruct \<Rightarrow> jsstring" where
  "VarHeader_desc h s = getStringValue h s 48 64"

definition VarHeader_unit :: "heap \<Rightarrow> IRSDKStruct \<Rightarrow> jsstring" where
  "VarHeader_unit h s = getStringValue h s 112 32"

subsection \<open>DiskSubHeader\<close>

definition DiskSubHeader_sessionLapCount :: "heap \<Rightarrow> IRSDKStruct \<Rightarrow> int result" where
  "DiskSubHeader_sessionLapCount h s = getNumber h s 24"

definition DiskSubHeader_sessionRecordCount :: "heap \<Rightarrow> IRSDKStruct \<Rightarrow> int result" where
  "DiskSubHeader_sessionRecordCount h s = getNumber h s 28"

section \<open>The value codec\<close>

definition VAR_TYPE_MAP :: "char list" where
  "VAR_TYPE_MAP = [CHR ''c'', CHR ''?'', CHR ''i'', CHR ''I'', CHR ''f'', CHR ''d'']"

text \<open>\<open>VAR_TYPE_MAP[type]\<close>: \<open>undefined\<close> (here \<open>None\<close>) for an index outside the table.\<close>

definition typeCharOf :: "int \<Rightarrow> char option" where
  "typeCharOf t = (if 0 \<le> t \<and> t < int (length VAR_TYPE_MAP) then Some (VAR_TYPE_MAP ! nat t) else None)"

text \<open>
  The switch on the type character. \<open>IRSDK.unpackValue\<close> and \<open>IBT.unpackSingleValue\<close>
  have the same cases in the same order; the second checks first that the file is open.
\<close>

definition unpackValue :: "byte list \<Rightarrow> int \<Rightarrow> char option \<Rightarrow> jsval result" where
  "unpackValue buffer offset typeChar =
     (if typeChar = Some CHR ''i'' then bindR (readInt32LE buffer offset) (\<lambda>n. Inr (Num n))
      else if typeChar = Some CHR ''I'' then bindR (readUInt32LE buffer offset) (\<lambda>n. Inr (Num n))
      else if typeChar = Some CHR ''f'' then bindR (readFloatLE buffer offset) (\<lambda>w. Inr (Float32 w))
      else if typeChar = Some CHR ''d'' then bindR (readDoubleLE buffer offset) (\<lambda>w. Inr (Float64 w))
      else if typeChar = Some CHR ''?'' then bindR (readUInt8 buffer offset) (\<lambda>n. Inr (Bool (n \<noteq> 0)))
      else if typeChar = Some CHR ''c'' then bindR (readUInt8 buffer offset) (\<lambda>n. Inr (Num n))
      else Inr (Num 0))"

definition getTypeSize :: "char option \<Rightarrow> int" where
  "getTypeSize typeChar =
     (if typeChar = Some CHR ''i'' \<or> typeChar = Some CHR ''I'' \<or> typeChar = Some CHR ''f'' then 4
      else if typeChar = Some CHR ''d'' then 8
      else if typeChar = Some CHR ''?'' \<or> typeChar = Some CHR ''c'' then 1
      else 0)"

section \<open>IBT: the replay file reader\<close>

text \<open>
  \<open>ibtFile\<close> is the read stream, of which only the path is looked at. The file system is
  outside the model: \<open>open\<close> is given the path and the buffer that \<open>readFileSync\<close> returned.
\<close>

record IBT =
  ibtFile :: "jsstring option"
  sharedMem :: "buffer option"
  header :: "IRSDKStruct option"
  diskHeader :: "IRSDKStruct option"
  varHeaders :: "IRSDKStruct list option"
  varHeadersDict :: "jsstring \<rightharpoonup> IRSDKStruct"
  varHeadersNames :: "jsstring list option"

definition new_IBT :: IBT where
  "new_IBT = \<lparr>ibtFile = None, sharedMem = None, header = None, diskHeader = None,
              varHeaders = None, varHeadersDict = Map.empty, varHeadersNames = None\<rparr>"

definition IBT_fileName :: "IBT \<Rightarrow> jsstring option" where
  "IBT_fileName st = ibtFile st"

definition IBT_open :: "jsstring \<Rightarrow> buffer \<Rightarrow> IBT \<Rightarrow> IBT" where
  "IBT_open ibtFilePath fileData st =
     st\<lparr>ibtFile := Some ibtFilePath,
        sharedMem := Some fileData,
        header := Some \<lparr>s_sharedMem = fileData, s_offset = 0\<rparr>,
        diskHeader := Some \<lparr>s_sharedMem = fileData, s_offset = 112\<rparr>\<rparr>"

definition IBT_close :: "IBT \<Rightarrow> IBT" where
  "IBT_close st =
     st\<lparr>ibtFile := None, sharedMem := None, header := None, diskHeader := None,
        varHeaders := None, varHeadersDict := Map.empty, varHeadersNames := None\<rparr>"

definition IBT_unpackSingleValue :: "heap \<Rightarrow> IBT \<Rightarrow> int \<Rightarrow> char option \<Rightarrow> jsval result" where
  "IBT_unpackSingleValue h st offset typeChar =
     (case sharedMem st of
        None \<Rightarrow> Inr Null
      | Some m \<Rightarrow> unpackValue (bytes h m) offset typeChar)"

definition IBT_unpackValues :: "heap \<Rightarrow> IBT \<Rightarrow> int \<Rightarrow> char option \<Rightarrow> int \<Rightarrow> jsval result" where
  "IBT_unpackValues h st offset typeChar count =
     (case sharedMem st of
        None \<Rightarrow> Inr Null
      | Some m \<Rightarrow>
          if count = 1 then IBT_unpackSingleValue h st offset typeChar
          else
            (let typeSize = getTypeSize typeChar
             in bindR (mapR (\<lambda>i. IBT_unpackSingleValue h st (offset + int i * typeSize) typeChar)
                          [0..<nat count])
                  (\<lambda>results. Inr (Array results))))"

text \<open>\<open>this.header.varBuf[0]._bufOffset\<close>: a \<open>TypeError\<close> when the list is empty.\<close>

definition firstBufOffset :: "heap \<Rightarrow> IRSDKStruct \<Rightarrow> int result" where
  "firstBufOffset h hdr =
     bindR (Header_varBuf h hdr) (\<lambda>bufs.
       case bufs of [] \<Rightarrow> Inl TypeError | b # _ \<Rightarrow> VarBuffer_rawBufOffset h b)"

definition IBT_get :: "heap \<Rightarrow> IBT \<Rightarrow> int \<Rightarrow> jsstring \<Rightarrow> jsval result" where
  "IBT_get h st index key =
     (case (header st, diskHeader st, sharedMem st) of
        (Some hdr, Some dh, Some m) \<Rightarrow>
          bindR (if index < 0 then Inr True
                 else bindR (DiskSubHeader_sessionRecordCount h dh) (\<lambda>cnt. Inr (index \<ge> cnt)))
            (\<lambda>outside.
               if outside then Inr Null
               else
                 (case varHeadersDict st key of
                    None \<Rightarrow> Inr Null
                  | Some varHeader \<Rightarrow>
                      bindR (VarHeader_type h varHeader) (\<lambda>ty.
                      bindR (VarHeader_offset h varHeader) (\<lambda>vo.
                      bindR (firstBufOffset h hdr) (\<lambda>bo.
                      bindR (Header_bufLen h hdr) (\<lambda>bufLen.
                      bindR (VarHeader_count h varHeader) (\<lambda>count.
                        IBT_unpackValues h st (vo + bo + index * bufLen) (typeCharOf ty) count)))))))
      | _ \<Rightarrow> Inr Null)"

definition IBT_getAll :: "heap \<Rightarrow> IBT \<Rightarrow> jsstring \<Rightarrow> jsval result" where
  "IBT_getAll h st key =
     (case (header st, diskHeader st, sharedMem st) of
        (Some hdr, Some dh, Some m) \<Rightarrow>
          (case varHeadersDict st key of
             None \<Rightarrow> Inr Null
           | Some varHeader \<Rightarrow>
               bindR (VarHeader_type h varHeader) (\<lambda>ty.
               bindR (Header_bufLen h hdr) (\<lambda>bufLen.
               bindR (VarHeader_offset h varHeader) (\<lambda>vo.
               bindR (firstBufOffset h hdr) (\<lambda>bo.
               bindR (DiskSubHeader_sessionRecordCount h dh) (\<lambda>cnt.
               bindR (mapR (\<lambda>i. bindR (VarHeader_count h varHeader) (\<lambda>count.
                                   IBT_unpackValues h st (vo + bo + int i * bufLen) (typeCharOf ty) count))
                           [0..<nat cnt])
                 (\<lambda>results. Inr (Array results))))))))
      | _ \<Rightarrow> Inr Null)"

text \<open>
  \<open>getVarHeaders\<close> is the only place that fills the list and the dictionary. It returns
  its result (or the exception of a failed read) together with the reader as it is then.
\<close>

definition IBT_getVarHeaders :: "heap \<Rightarrow> IBT \<Rightarrow> IRSDKStruct list result \<times> IBT" where
  "IBT_getVarHeaders h st =
     (case (varHeaders st, header st, sharedMem st) of
        (None, Some hdr, Some m) \<Rightarrow>
          (let st0 = st\<lparr>varHeaders := Some [], varHeadersDict := Map.empty\<rparr>
           in case Header_numVars h hdr of
                Inl e \<Rightarrow> (Inl e, st0)
              | Inr n \<Rightarrow>
                  if 0 < n
                  then (case Header_varHeaderOffset h hdr of
                          Inl e \<Rightarrow> (Inl e, st0)
                        | Inr vo \<Rightarrow>
                            (let vhs = map (\<lambda>i. \<lparr>s_sharedMem = m, s_offset = vo + int i * 144\<rparr>) [0..<nat n]
                             in (Inr vhs,
                                 st0\<lparr>varHeaders := Some vhs,
                                     varHeadersDict :=
                                       foldl (\<lambda>d vh. d(VarHeader_name h vh \<mapsto> vh)) Map.empty vhs\<rparr>)))
                  else (Inr [], st0))
      | _ \<Rightarrow> (Inr (case varHeaders st of Some vhs \<Rightarrow> vhs | None \<Rightarrow> []), st))"

definition IBT_varHeadersNamesList :: "heap \<Rightarrow> IBT \<Rightarrow> jsstring list option result \<times> IBT" where
  "IBT_varHeadersNamesList h st =
     (case header st of
        None \<Rightarrow> (Inr None, st)
      | Some hdr \<Rightarrow>
          (case varHeadersNames st of
             Some names \<Rightarrow> (Inr (Some names), st)
           | None \<Rightarrow>
               (case IBT_getVarHeaders h st of
                  (Inl e, st') \<Rightarrow> (Inl e, st')
                | (Inr vhs, st') \<Rightarrow>
                    (let names = map (VarHeader_name h) vhs
                     in (Inr (Some names), st'\<lparr>varHeadersNames := Some names\<rparr>)))))"

section \<open>IRSDK: the live reader\<close>

text \<open>
  The fields of the class that reading a telemetry variable touches. The session-text
  cache, the event handle and the message API are left out.
\<close>

record IRSDK =
  sdk_isInitialized :: bool
  sdk_sharedMem :: "buffer option"
  sdk_header :: "IRSDKStruct option"
  sdk_varHeaders :: "IRSDKStruct list option"
  sdk_varHeadersDict :: "jsstring \<rightharpoonup> IRSDKStruct"
  sdk_varHeadersNames :: "jsstring list option"
  sdk_varBufferLatest :: "VarBuffer option"

definition new_IRSDK :: IRSDK where
  "new_IRSDK = \<lparr>sdk_isInitialized = False, sdk_sharedMem = None, sdk_header = None,
                sdk_varHeaders = None, sdk_varHeadersDict = Map.empty, sdk_varHeadersNames = None,
                sdk_varBufferLatest = None\<rparr>"

text \<open>
  \<open>startup\<close> from the point where the region is in \<open>sharedMem\<close>: it makes the header and
  sets \<open>isInitialized\<close>. An exception of a read is caught there, after the header is set.
\<close>

definition IRSDK_startup :: "heap \<Rightarrow> buffer \<Rightarrow> IRSDK \<Rightarrow> IRSDK" where
  "IRSDK_startup h region st =
     (let hdr = \<lparr>s_sharedMem = region, s_offset = 0\<rparr>;
          st1 = st\<lparr>sdk_sharedMem := Some region, sdk_header := Some hdr\<rparr>
      in case bindR (Header_version h hdr) (\<lambda>v.
                if v \<ge> 1 then bindR (Header_varBuf h hdr) (\<lambda>bufs. Inr (length bufs > 0))
                else Inr False) of
           Inl e \<Rightarrow> st1
         | Inr ok \<Rightarrow> st1\<lparr>sdk_isInitialized := ok\<rparr>)"

text \<open>
  \<open>[...varBuf].sort((a, b) => b.tickCount - a.tickCount)\<close>: the sort is stable and reads
  the tick count of the buffers it compares; a list of fewer than two elements is
  returned without a comparison.
\<close>

definition sortByTickCount :: "heap \<Rightarrow> VarBuffer list \<Rightarrow> VarBuffer list result" where
  "sortByTickCount h bufs =
     (if length bufs \<le> 1 then Inr bufs
      else bindR (mapR (VarBuffer_tickCount h) bufs) (\<lambda>ticks.
             Inr (map snd (sort_key (\<lambda>(t, b). - t) (zip ticks bufs)))))"

definition IRSDK_getVarBufferLatest :: "heap \<Rightarrow> IRSDK \<Rightarrow> VarBuffer option result" where
  "IRSDK_getVarBufferLatest h st =
     (case sdk_varBufferLatest st of
        Some vb \<Rightarrow> Inr (Some vb)
      | None \<Rightarrow>
          (case sdk_header st of
             None \<Rightarrow> Inr None
           | Some hdr \<Rightarrow>
               bindR (Header_varBuf h hdr) (\<lambda>bufs.
               bindR (sortByTickCount h bufs) (\<lambda>sorted.
                 Inr (if length sorted > 1 then Some (sorted ! 1)
                      else (case sorted of [] \<Rightarrow> None | b # _ \<Rightarrow> Some b))))))"

definition IRSDK_unfreezeVarBufferLatest :: "IRSDK \<Rightarrow> IRSDK" where
  "IRSDK_unfreezeVarBufferLatest st =
     (case sdk_varBufferLatest st of
        Some vb \<Rightarrow> st\<lparr>sdk_varBufferLatest := None\<rparr>
      | None \<Rightarrow> st)"

definition IRSDK_freezeVarBufferLatest :: "heap \<Rightarrow> IRSDK \<Rightarrow> IRSDK result" where
  "IRSDK_freezeVarBufferLatest h st =
     (let st1 = IRSDK_unfreezeVarBufferLatest st
      in case sdk_header st1 of
           None \<Rightarrow> Inr st1
         | Some hdr \<Rightarrow>
             bindR (Header_varBuf h hdr) (\<lambda>bufs.
             bindR (sortByTickCount h bufs) (\<lambda>sorted.
               case sorted of
                 [] \<Rightarrow> Inl TypeError
               | b # _ \<Rightarrow> bindR (VarBuffer_freeze h b) (\<lambda>fb. Inr (st1\<lparr>sdk_varBufferLatest := Some fb\<rparr>)))))"

text \<open>
  \<open>get\<close> for a key of the dictionary. For any other key the result is that of
  \<open>getSessionInfo\<close>, which is not part of this model: \<open>FromSessionInfo\<close> stands for it.
\<close>

datatype lookup = Value jsval | FromSessionInfo

definition IRSDK_get :: "heap \<Rightarrow> IRSDK \<Rightarrow> jsstring \<Rightarrow> lookup result" where
  "IRSDK_get h st key =
     (if \<not> sdk_isInitialized st \<or> sdk_header st = None then Inr (Value Undefined)
      else
        (case sdk_varHeadersDict st key of
           Some varHeader \<Rightarrow>
             bindR (IRSDK_getVarBufferLatest h st) (\<lambda>latest.
               case latest of
                 None \<Rightarrow> Inr (Value Undefined)
               | Some varBufLatest \<Rightarrow>
                   (let memory = bytes h (VarBuffer_getMemory varBufLatest)
                    in bindR (VarBuffer_bufOffset h varBufLatest) (\<lambda>bo.
                       bindR (VarHeader_offset h varHeader) (\<lambda>vo.
                       bindR (VarHeader_type h varHeader) (\<lambda>ty.
                       bindR (VarHeader_count h varHeader) (\<lambda>count.
                         if count = 1
                         then bindR (unpackValue memory (bo + vo) (typeCharOf ty)) (\<lambda>v. Inr (Value v))
                         else bindR (mapR (\<lambda>i. unpackValue memory
                                                (bo + vo + int i * getTypeSize (typeCharOf ty)) (typeCharOf ty))
                                          [0..<nat count])
                                (\<lambda>result. Inr (Value (Array result)))))))))
         | None \<Rightarrow> Inr FromSessionInfo))"

text \<open>The live reader builds its descriptor table as the file reader does.\<close>

definition IRSDK_getVarHeaders :: "heap \<Rightarrow> IRSDK \<Rightarrow> IRSDKStruct list result \<times> IRSDK" where
  "IRSDK_getVarHeaders h st =
     (case (sdk_varHeaders st, sdk_header st, sdk_sharedMem st) of
        (None, Some hdr, Some m) \<Rightarrow>
          (let st0 = st\<lparr>sdk_varHeaders := Some [], sdk_varHeadersDict := Map.empty\<rparr>
           in case Header_numVars h hdr of
                Inl e \<Rightarrow> (Inl e, st0)
              | Inr n \<Rightarrow>
                  if 0 < n
                  then (case Header_varHeaderOffset h hdr of
                          Inl e \<Rightarrow> (Inl e, st0)
                        | Inr vo \<Rightarrow>
                            (let vhs = map (\<lambda>i. \<lparr>s_sharedMem = m, s_offset = vo + int i * 144\<rparr>) [0..<nat n]
                             in (Inr vhs,
                                 st0\<lparr>sdk_varHeaders := Some vhs,
                                     sdk_varHeadersDict :=
                                       foldl (\<lambda>d vh. d(VarHeader_name h vh \<mapsto> vh)) Map.empty vhs\<rparr>)))
                  else (Inr [], st0))
      | _ \<Rightarrow> (Inr (case sdk_varHeaders st of Some vhs \<Rightarrow> vhs | None \<Rightarrow> []), st))"

definition IRSDK_varHeadersNamesList :: "heap \<Rightarrow> IRSDK \<Rightarrow> jsstring list result \<times> IRSDK" where
  "IRSDK_varHeadersNamesList h st =
     (case (sdk_varHeadersNames st, sdk_header st) of
        (None, Some hdr) \<Rightarrow>
          (case IRSDK_getVarHeaders h st of
             (Inl e, st') \<Rightarrow> (Inl e, st')
           | (Inr vhs, st') \<Rightarrow>
               (let names = map (VarHeader_name h) vhs
                in (Inr names, st'\<lparr>sdk_varHeadersNames := Some names\<rparr>)))
      | _ \<Rightarrow> (Inr (case sdk_varHeadersNames st of Some names \<Rightarrow> names | None \<Rightarrow> []), st))"

section \<open>Two fabricated inputs\<close>

text \<open>
  A replay file of 296 bytes: the header (one variable, its descriptor at 144, one buffer
  of 4 bytes whose data start at 288), the descriptor of the buffer at 48, the disk
  sub-header at 112 with a record count of 2 at 140, the descriptor of \<open>Speed\<close> (type 4,
  offset 0, count 1) at 144, and two records: 10.0 and 12.0 as single-precision floats.
\<close>

definition replayFile :: "byte list" where
  "replayFile =
     [2, 0, 0, 0,  1, 0, 0, 0,  60, 0, 0, 0] @ replicate 12 0
     @ [1, 0, 0, 0,  144, 0, 0, 0,  1, 0, 0, 0,  4, 0, 0, 0] @ replicate 8 0
     @ [0, 0, 0, 0,  0x20, 1, 0, 0] @ replicate 8 0
     @ replicate 48 0
     @ replicate 28 0 @ [2, 0, 0, 0]
     @ [4, 0, 0, 0,  0, 0, 0, 0,  1, 0, 0, 0] @ replicate 4 0
     @ ascii ''Speed'' @ replicate 27 0 @ replicate 96 0
     @ [0, 0, 0x20, 0x41,  0, 0, 0x40, 0x41]"

definition replayHeap :: heap where
  "replayHeap = (\<lambda>r. replayFile)"

definition replayData :: buffer where
  "replayData = \<lparr>mem = 0, byteOffset = 0, byteLength = 296\<rparr>"

definition replayOpened :: IBT where
  "replayOpened = IBT_open (js ''lap.ibt'') replayData new_IBT"

text \<open>
  A live region of 384 bytes: two buffers of 64 bytes, the descriptor of \<open>Speed\<close> (type 4,
  offset 0, count 1) at 112; buffer 0 has tick 5 and its data, 10.0, at 256; buffer 1 has
  tick 6 and its data, 12.0, at 320.
\<close>

definition liveRegion :: "byte list" where
  "liveRegion =
     [2, 0, 0, 0,  1, 0, 0, 0,  60, 0, 0, 0] @ replicate 12 0
     @ [1, 0, 0, 0,  112, 0, 0, 0,  2, 0, 0, 0,  64, 0, 0, 0] @ replicate 8 0
     @ [5, 0, 0, 0,  0, 1, 0, 0] @ replicate 8 0
     @ [6, 0, 0, 0,  0x40, 1, 0, 0] @ replicate 8 0
     @ replicate 32 0
     @ [4, 0, 0, 0,  0, 0, 0, 0,  1, 0, 0, 0] @ replicate 4 0
     @ ascii ''Speed'' @ replicate 27 0 @ replicate 96 0
     @ [0, 0, 0x20, 0x41] @ replicate 60 0
     @ [0, 0, 0x40, 0x41] @ replicate 60 0"

definition liveHeap :: heap where
  "liveHeap = (\<lambda>r. liveRegion)"

definition liveData :: buffer where
  "liveData = \<lparr>mem = 0, byteOffset = 0, byteLength = 384\<rparr>"

text \<open>The live reader started on that region, with its descriptor table loaded.\<close>

definition liveReader :: IRSDK where
  "liveReader = snd (IRSDK_varHeadersNamesList liveHeap (IRSDK_startup liveHeap liveData new_IRSDK))"

section \<open>The value codec, as specified\<close>

text \<open>
  What the specification says of the codec, to compare the code with: the bytes of a
  value in little-endian order, the size of each type, and the kind of value each type
  character stands for (\<open>c\<close> a byte as an integer, \<open>?\<close> a boolean from one byte, \<open>i\<close> and
  \<open>I\<close> a signed and an unsigned 32-bit integer, \<open>f\<close> and \<open>d\<close> a single and a double).
\<close>

definition le_value :: "byte list \<Rightarrow> int \<Rightarrow> nat \<Rightarrow> int" where
  "le_value bs off n = (\<Sum>k<n. uint (bs ! (nat off + k)) * 256 ^ k)"

definition typeSize_spec :: "char \<Rightarrow> nat" where
  "typeSize_spec tc =
     (if tc = CHR ''c'' \<or> tc = CHR ''?'' then 1
      else if tc = CHR ''i'' \<or> tc = CHR ''I'' \<or> tc = CHR ''f'' then 4
      else 8)"

definition decode_spec :: "char \<Rightarrow> byte list \<Rightarrow> int \<Rightarrow> jsval" where
  "decode_spec tc bs off =
     (if tc = CHR ''c'' then Num (uint (bs ! nat off))
      else if tc = CHR ''?'' then Bool (bs ! nat off \<noteq> 0)
      else if tc = CHR ''i'' then Num (sint (word_of_int (le_value bs off 4) :: 32 word))
      else if tc = CHR ''I'' then Num (uint (word_of_int (le_value bs off 4) :: 32 word))
      else if tc = CHR ''f'' then Float32 (word_of_int (le_value bs off 4))
      else Float64 (word_of_int (le_value bs off 8)))"

section \<open>Reading all records, as specified\<close>

text \<open>The replay file of above, opened, with its descriptor table loaded by a read of the name list.\<close>

definition replayLoaded :: IBT where
  "replayLoaded = snd (IBT_varHeadersNamesList replayHeap replayOpened)"

text \<open>
  What the specification says \<open>getAll\<close> amounts to: a call of \<open>get\<close> for each index in
  increasing order from 0, up to the record count; the first exception ends it.
\<close>

definition getAll_by_get :: "heap \<Rightarrow> IBT \<Rightarrow> jsstring \<Rightarrow> int \<Rightarrow> jsval list result" where
  "getAll_by_get h st key cnt = mapR (\<lambda>i. IBT_get h st (int i) key) [0..<nat cnt]"

section \<open>A frozen buffer\<close>

text \<open>Buffer 1 of the live region after \<open>freeze\<close>: its snapshot is the window at 320 of length 64.\<close>

definition frozenBuffer :: VarBuffer where
  "frozenBuffer =
     \<lparr>s_sharedMem = liveData, s_offset = 64, v_bufLen = 64, v_isFrozen = True,
      v_frozenMemory = Some \<lparr>mem = 0, byteOffset = 320, byteLength = 64\<rparr>\<rparr>"

section \<open>Extracting a section, as specified\<close>



section \<open>Reading a variable from a buffer, as specified\<close>

text \<open>
  What a read of a variable from a given buffer is: the value (or, for a count other
  than 1, the sequence of values) decoded in the memory the buffer gives, at the
  buffer's offset plus the descriptor's offset.
\<close>

definition readVariable :: "heap \<Rightarrow> VarBuffer \<Rightarrow> IRSDKStruct \<Rightarrow> jsval result" where
  "readVariable h vb varHeader =
     (let memory = bytes h (VarBuffer_getMemory vb)
      in bindR (VarBuffer_bufOffset h vb) (\<lambda>bo.
         bindR (VarHeader_offset h varHeader) (\<lambda>vo.
         bindR (VarHeader_type h varHeader) (\<lambda>ty.
         bindR (VarHeader_count h varHeader) (\<lambda>count.
           if count = 1 then unpackValue memory (bo + vo) (typeCharOf ty)
           else bindR (mapR (\<lambda>i. unpackValue memory
                                  (bo + vo + int i * getTypeSize (typeCharOf ty)) (typeCharOf ty))
                            [0..<nat count])
                  (\<lambda>result. Inr (Array result)))))))"

text \<open>
  A live region of 448 bytes with three buffers of 64 bytes, of which two have the same
  tick count: the ticks are 5, 6 and 6, the data 10.0, 12.0 and 14.0 at 256, 320 and 384.
\<close>

definition tieRegion :: "byte list" where
  "tieRegion =
     [2, 0, 0, 0,  1, 0, 0, 0,  60, 0, 0, 0] @ replicate 12 0
     @ [1, 0, 0, 0,  112, 0, 0, 0,  3, 0, 0, 0,  64, 0, 0, 0] @ replicate 8 0
     @ [5, 0, 0, 0,  0, 1, 0, 0] @ replicate 8 0
     @ [6, 0, 0, 0,  0x40, 1, 0, 0] @ replicate 8 0
     @ [6, 0, 0, 0,  0x80, 1, 0, 0] @ replicate 8 0
     @ replicate 16 0
     @ [4, 0, 0, 0,  0, 0, 0, 0,  1, 0, 0, 0] @ replicate 4 0
     @ ascii ''Speed'' @ replicate 27 0 @ replicate 96 0
     @ [0, 0, 0x20, 0x41] @ replicate 60 0
     @ [0, 0, 0x40, 0x41] @ replicate 60 0
     @ [0, 0, 0x60, 0x41] @ replicate 60 0"

definition tieHeap :: heap where
  "tieHeap = (\<lambda>r. tieRegion)"

definition tieData :: buffer where
  "tieData = \<lparr>mem = 0, byteOffset = 0, byteLength = 448\<rparr>"

definition tieReader :: IRSDK where
  "tieReader = IRSDK_startup tieHeap tieData new_IRSDK"

section \<open>Basic facts\<close>

lemma bindR_simps [simp]:
  "bindR (Inl e) f = Inl e"
  "bindR (Inr x) f = f x"
  by (simp_all add: bindR_def)

lemma indexOf_range: "indexOf bs v = -1 \<or> (0 \<le> indexOf bs v \<and> indexOf bs v < int (length bs))"
  by (induction bs) (auto simp: Let_def)

lemma indexOf_none: "indexOf bs v = -1 \<Longrightarrow> takeWhile (\<lambda>b. b \<noteq> v) bs = bs"
proof (induction bs)
  case Nil
  then show ?case by simp
next
  case (Cons b bs)
  from indexOf_range [of bs v] have "indexOf bs v + 1 \<noteq> -1" by auto
  with Cons show ?case by (auto simp: Let_def split: if_splits)
qed

lemma indexOf_some: "indexOf bs v \<noteq> -1 \<Longrightarrow> take (nat (indexOf bs v)) bs = takeWhile (\<lambda>b. b \<noteq> v) bs"
proof (induction bs)
  case Nil
  then show ?case by simp
next
  case (Cons b bs)
  show ?case
  proof (cases "b = v")
    case True
    then show ?thesis by simp
  next
    case False
    with Cons.prems have ne: "indexOf bs v \<noteq> -1"
      by (auto simp: Let_def split: if_splits)
    from indexOf_range [of bs v] ne have "0 \<le> indexOf bs v" by auto
    then have "nat (indexOf bs v + 1) = Suc (nat (indexOf bs v))" by simp
    with False ne Cons.IH show ?thesis by (simp add: Let_def)
  qed
qed

lemma slice_bytes_prefix: "0 \<le> n \<Longrightarrow> n \<le> int (length bs) \<Longrightarrow> slice_bytes bs 0 n = take (nat n) bs"
  by (simp add: slice_bytes_def slice_idx_def Let_def)

section \<open>The session text\<close>

subsection \<open>Cleaning the bytes\<close>

lemma truncate_at_null:
  "(if indexOf bs 0 \<noteq> -1 then slice_bytes bs 0 (indexOf bs 0) else bs) = takeWhile (\<lambda>b. b \<noteq> 0) bs"
proof (cases "indexOf bs 0 = -1")
  case True
  then show ?thesis by (simp add: indexOf_none)
next
  case False
  with indexOf_range [of bs 0] have "0 \<le> indexOf bs 0" "indexOf bs 0 \<le> int (length bs)" by auto
  with False show ?thesis by (simp add: slice_bytes_prefix indexOf_some)
qed

lemma translate_table:
  "foldl (\<lambda>buf (from, to). replaceByte from to buf) data YAML_TRANSLATER
     = map (\<lambda>b. if b \<in> {0x81, 0x8d, 0x8f, 0x90, 0x9d} then 0x20 else b) data"
  by (simp add: YAML_TRANSLATER_def replaceByte_def)

text \<open>
  Claim C7. For every input buffer, \<open>translateYamlData\<close> returns the string that is got
  by putting a space (0x20) in the place of every byte 0x81, 0x8d, 0x8f, 0x90 and 0x9d,
  cutting at the first null byte if there is one, and taking each byte that is left as
  one code unit of the same number (Latin-1), never as part of a UTF-8 sequence.
\<close>

theorem translateYamlData_spec:
  "translateYamlData data =
     map ucast (takeWhile (\<lambda>b. b \<noteq> 0)
       (map (\<lambda>b. if b \<in> {0x81, 0x8d, 0x8f, 0x90, 0x9d} then 0x20 else b) data))"
  by (simp only: translateYamlData_def Let_def translate_table truncate_at_null latin1_def)

subsection \<open>Parsing\<close>

text \<open>
  Claim C8. For every input string and every behaviour of the YAML parser,
  \<open>parseIRSDKYaml\<close> lets no exception reach its caller: when the parse of the cleaned
  text throws, the result is \<open>null\<close>.
\<close>

theorem parseIRSDKYaml_no_exception:
  "(\<forall>e. parseIRSDKYaml load yamlStr \<noteq> Inl e) \<and>
   (\<forall>e. load (cleanYaml yamlStr) = Inl e \<longrightarrow> parseIRSDKYaml load yamlStr = Inr None)"
  by (auto simp: parseIRSDKYaml_def split: sum.splits)

theorem parseIRSDKYaml_no_exception_witness:
  "(\<lambda>s. Inl Error :: exn + unit) (cleanYaml (js ''a: ['')) = Inl Error \<and>
   parseIRSDKYaml (\<lambda>s. Inl Error :: exn + unit) (js ''a: ['') = Inr None"
  using parseIRSDKYaml_no_exception [of "\<lambda>s. Inl Error :: exn + unit" "js ''a: [''"]
  by simp

section \<open>The replay file reader\<close>

subsection \<open>Closing\<close>

text \<open>
  Claim C10. After \<open>close\<close>, \<open>get\<close> and \<open>getAll\<close> return \<open>null\<close> for every index and key,
  \<open>fileName\<close> and \<open>varHeadersNamesList\<close> return \<open>null\<close> (and leave the reader closed):
  \<open>close\<close> clears the header, the disk sub-header, the memory, the descriptor list, the
  name dictionary and the name list, which is the state of a new reader.
\<close>

theorem IBT_close_resets:
  "IBT_get h (IBT_close st) index key = Inr Null \<and>
   IBT_getAll h (IBT_close st) key = Inr Null \<and>
   IBT_fileName (IBT_close st) = None \<and>
   IBT_varHeadersNamesList h (IBT_close st) = (Inr None, IBT_close st) \<and>
   IBT_close st = new_IBT"
  by (simp add: IBT_close_def IBT_get_def IBT_getAll_def IBT_fileName_def
      IBT_varHeadersNamesList_def new_IBT_def)

section \<open>Decoding values\<close>

subsection \<open>Little-endian reads\<close>

lemma le_int_take: "n \<le> length xs \<Longrightarrow> le_int (take n xs) = (\<Sum>k<n. uint (xs ! k) * 256 ^ k)"
proof (induction xs arbitrary: n)
  case Nil
  then show ?case by simp
next
  case (Cons x xs)
  show ?case
  proof (cases n)
    case 0
    then show ?thesis by simp
  next
    case (Suc m)
    with Cons.prems have "m \<le> length xs" by simp
    then have "le_int (take m xs) = (\<Sum>k<m. uint (xs ! k) * 256 ^ k)" by (rule Cons.IH)
    then show ?thesis
      unfolding Suc by (simp add: sum.lessThan_Suc_shift sum_distrib_left mult_ac del: sum.lessThan_Suc)
  qed
qed

lemma le_int_field:
  assumes "inRange bs off n"
  shows "le_int (field bs off n) = le_value bs off n"
proof -
  from assms have r: "0 \<le> off" "nat off + n \<le> length bs"
    by (auto simp: inRange_def)
  then have "n \<le> length (drop (nat off) bs)" by simp
  then have "le_int (take n (drop (nat off) bs)) = (\<Sum>k<n. uint (drop (nat off) bs ! k) * 256 ^ k)"
    by (rule le_int_take)
  also have "\<dots> = (\<Sum>k<n. uint (bs ! (nat off + k)) * 256 ^ k)"
    using r by (intro sum.cong) auto
  finally show ?thesis by (simp add: field_def le_value_def)
qed

lemma le_int_bounds: "0 \<le> le_int bs \<and> le_int bs < 256 ^ length bs"
proof (induction bs)
  case Nil
  show ?case by simp
next
  case (Cons b bs)
  have "uint b < 256" using uint_bounded [of b] by simp
  moreover have "0 \<le> uint b" by simp
  moreover have "le_int bs + 1 \<le> 256 ^ length bs" using Cons by simp
  then have "256 * (le_int bs + 1) \<le> 256 * 256 ^ length bs" by (rule mult_left_mono) simp
  ultimately show ?case using Cons by (simp add: algebra_simps)
qed

lemma length_field: "inRange bs off n \<Longrightarrow> length (field bs off n) = n"
  by (auto simp: inRange_def field_def)

lemma signed32:
  assumes "0 \<le> u" "u < 2 ^ 32"
  shows "(if u < 2 ^ 31 then u else u - 2 ^ 32) = sint (word_of_int u :: 32 word)"
proof (cases "u < 2 ^ 31")
  case True
  with assms have "(u + 2147483648) mod 4294967296 = u + 2147483648"
    by (intro mod_pos_pos_trivial) simp_all
  with True show ?thesis by (simp add: int_word_sint)
next
  case False
  have "(u + 2147483648) mod 4294967296 = (u + 2147483648 - 4294967296) mod 4294967296"
    by (simp only: minus_mod_self2)
  also have "\<dots> = u + 2147483648 - 4294967296"
    using assms False by (intro mod_pos_pos_trivial) simp_all
  finally show ?thesis using False by (simp add: int_word_sint)
qed

lemma unsigned32:
  assumes "0 \<le> u" "u < 2 ^ 32"
  shows "uint (word_of_int u :: 32 word) = u"
  using assms by (simp add: uint_word_of_int)

lemma readUInt8_eq: "inRange bs off 1 \<Longrightarrow> readUInt8 bs off = Inr (uint (bs ! nat off))"
  by (simp add: readUInt8_def le_int_field le_value_def)

lemma le_int_field4:
  assumes "inRange bs off 4"
  shows "0 \<le> le_value bs off 4" "le_value bs off 4 < 2 ^ 32"
proof -
  have "le_int (field bs off 4) < 256 ^ 4" "0 \<le> le_int (field bs off 4)"
    using le_int_bounds [of "field bs off 4"] length_field [OF assms] by simp_all
  then show "0 \<le> le_value bs off 4" "le_value bs off 4 < 2 ^ 32"
    by (simp_all add: le_int_field [OF assms])
qed

lemma readUInt32LE_eq:
  assumes "inRange bs off 4"
  shows "readUInt32LE bs off = Inr (uint (word_of_int (le_value bs off 4) :: 32 word))"
  using assms unsigned32 [OF le_int_field4 [OF assms]]
  by (simp add: readUInt32LE_def le_int_field)

lemma readInt32LE_eq:
  assumes "inRange bs off 4"
  shows "readInt32LE bs off = Inr (sint (word_of_int (le_value bs off 4) :: 32 word))"
  using assms signed32 [OF le_int_field4 [OF assms]]
  by (simp only: readInt32LE_def le_int_field Let_def if_True)

lemma readFloatLE_eq: "inRange bs off 4 \<Longrightarrow> readFloatLE bs off = Inr (word_of_int (le_value bs off 4))"
  by (simp add: readFloatLE_def le_int_field)

lemma readDoubleLE_eq: "inRange bs off 8 \<Longrightarrow> readDoubleLE bs off = Inr (word_of_int (le_value bs off 8))"
  by (simp add: readDoubleLE_def le_int_field)

lemma unpackValue_decodes:
  assumes "tc \<in> set VAR_TYPE_MAP" "inRange buffer offset (typeSize_spec tc)"
  shows "unpackValue buffer offset (Some tc) = Inr (decode_spec tc buffer offset)"
proof -
  from assms(1) consider "tc = CHR ''c''" | "tc = CHR ''?''" | "tc = CHR ''i''"
    | "tc = CHR ''I''" | "tc = CHR ''f''" | "tc = CHR ''d''"
    by (auto simp: VAR_TYPE_MAP_def)
  then show ?thesis
  proof cases
    case 1
    with assms(2) show ?thesis
      by (simp add: typeSize_spec_def unpackValue_def decode_spec_def readUInt8_eq)
  next
    case 2
    with assms(2) show ?thesis
      by (simp add: typeSize_spec_def unpackValue_def decode_spec_def readUInt8_eq uint_0_iff)
  next
    case 3
    with assms(2) show ?thesis
      by (simp add: typeSize_spec_def unpackValue_def decode_spec_def readInt32LE_eq)
  next
    case 4
    with assms(2) show ?thesis
      by (simp add: typeSize_spec_def unpackValue_def decode_spec_def readUInt32LE_eq)
  next
    case 5
    with assms(2) show ?thesis
      by (simp add: typeSize_spec_def unpackValue_def decode_spec_def readFloatLE_eq)
  next
    case 6
    with assms(2) show ?thesis
      by (simp add: typeSize_spec_def unpackValue_def decode_spec_def readDoubleLE_eq)
  qed
qed

lemma unpackValue_out_of_range:
  assumes "tc \<in> set VAR_TYPE_MAP" "\<not> inRange buffer offset (typeSize_spec tc)"
  shows "unpackValue buffer offset (Some tc) = Inl RangeError"
proof -
  from assms(1) consider "tc = CHR ''c''" | "tc = CHR ''?''" | "tc = CHR ''i''"
    | "tc = CHR ''I''" | "tc = CHR ''f''" | "tc = CHR ''d''"
    by (auto simp: VAR_TYPE_MAP_def)
  then show ?thesis
    using assms(2)
    by cases (simp_all add: typeSize_spec_def unpackValue_def
        readInt32LE_def readUInt32LE_def readUInt8_def readFloatLE_def readDoubleLE_def)
qed

subsection \<open>Scalars and sequences\<close>

lemma getTypeSize_spec: "tc \<in> set VAR_TYPE_MAP \<Longrightarrow> getTypeSize (Some tc) = int (typeSize_spec tc)"
  by (auto simp: VAR_TYPE_MAP_def typeSize_spec_def getTypeSize_def)

lemma mapR_all_Inr: "(\<And>x. x \<in> set xs \<Longrightarrow> f x = Inr (g x)) \<Longrightarrow> mapR f xs = Inr (map g xs)"
  by (induction xs) simp_all


lemma decode_spec_scalar: "decode_spec tc bs off \<noteq> Array vs"
  by (simp add: decode_spec_def)

lemma IBT_unpackValues_one:
  assumes "tc \<in> set VAR_TYPE_MAP" "sharedMem st = Some m"
    "inRange (bytes h m) offset (typeSize_spec tc)"
  shows "IBT_unpackValues h st offset (Some tc) 1 = Inr (decode_spec tc (bytes h m) offset)"
  using assms by (simp add: IBT_unpackValues_def IBT_unpackSingleValue_def unpackValue_decodes)

lemma IBT_unpackValues_many:
  assumes tc: "tc \<in> set VAR_TYPE_MAP" and m: "sharedMem st = Some m" and n: "n \<noteq> 1"
    and r: "\<And>i. i < nat n \<Longrightarrow> inRange (bytes h m) (offset + int i * int (typeSize_spec tc)) (typeSize_spec tc)"
  shows "IBT_unpackValues h st offset (Some tc) n =
           Inr (Array (map (\<lambda>i. decode_spec tc (bytes h m) (offset + int i * int (typeSize_spec tc)))
                           [0..<nat n]))"
proof -
  have "mapR (\<lambda>i. IBT_unpackSingleValue h st (offset + int i * getTypeSize (Some tc)) (Some tc)) [0..<nat n]
          = Inr (map (\<lambda>i. decode_spec tc (bytes h m) (offset + int i * int (typeSize_spec tc))) [0..<nat n])"
  proof (rule mapR_all_Inr)
    fix i assume "i \<in> set [0..<nat n]"
    then have "i < nat n" by simp
    from r [OF this] tc m
    show "IBT_unpackSingleValue h st (offset + int i * getTypeSize (Some tc)) (Some tc)
            = Inr (decode_spec tc (bytes h m) (offset + int i * int (typeSize_spec tc)))"
      by (simp add: IBT_unpackSingleValue_def getTypeSize_spec unpackValue_decodes)
  qed
  with m n show ?thesis
    by (simp add: IBT_unpackValues_def Let_def)
qed

lemma le_value4:
  "le_value bs off 4 = uint (bs ! nat off) + 256 * uint (bs ! (nat off + 1))
     + 65536 * uint (bs ! (nat off + 2)) + 16777216 * uint (bs ! (nat off + 3))"
proof -
  have "{..<4::nat} = {0, 1, 2, 3}" by auto
  then show ?thesis by (simp add: le_value_def)
qed

lemma replay_bytes: "bytes replayHeap replayData = replayFile"
  by (simp add: bytes_def replayHeap_def replayData_def replayFile_def ascii_def)

text \<open>
  Claim C6. For every buffer, offset and type tag among char, bool, int32, uint32,
  float32 and float64, a read inside the buffer decodes one value of the kind of the tag,
  from bytes in little-endian order; the sizes are 1 for char and bool, 4 for int32,
  uint32 and float32, and 8 for float64 (a read that is not inside the buffer raises a
  \<open>RangeError\<close>); for a count of 1 the result is a scalar, never a
  sequence; for a count \<open>n > 1\<close> it is the sequence of the \<open>n\<close> values of which the
  \<open>i\<close>-th is decoded at \<open>offset + i * typeSize\<close>.
\<close>

theorem value_codec:
  "getTypeSize (typeCharOf 0) = 1 \<and> getTypeSize (typeCharOf 1) = 1 \<and>
   getTypeSize (typeCharOf 2) = 4 \<and> getTypeSize (typeCharOf 3) = 4 \<and>
   getTypeSize (typeCharOf 4) = 4 \<and> getTypeSize (typeCharOf 5) = 8 \<and>
   (\<forall>tc \<in> set VAR_TYPE_MAP. getTypeSize (Some tc) = int (typeSize_spec tc)) \<and>
   (tc \<in> set VAR_TYPE_MAP \<and> sharedMem st = Some m \<and> inRange (bytes h m) offset (typeSize_spec tc) \<longrightarrow>
      IBT_unpackSingleValue h st offset (Some tc) = Inr (decode_spec tc (bytes h m) offset) \<and>
      IBT_unpackValues h st offset (Some tc) 1 = Inr (decode_spec tc (bytes h m) offset) \<and>
      (\<forall>vs. decode_spec tc (bytes h m) offset \<noteq> Array vs)) \<and>
   (tc \<in> set VAR_TYPE_MAP \<and> sharedMem st = Some m \<and> \<not> inRange (bytes h m) offset (typeSize_spec tc) \<longrightarrow>
      IBT_unpackSingleValue h st offset (Some tc) = Inl RangeError) \<and>
   (tc \<in> set VAR_TYPE_MAP \<and> sharedMem st = Some m \<and> 1 < n \<and>
    (\<forall>i < nat n. inRange (bytes h m) (offset + int i * int (typeSize_spec tc)) (typeSize_spec tc)) \<longrightarrow>
      IBT_unpackValues h st offset (Some tc) n =
        Inr (Array (map (\<lambda>i. decode_spec tc (bytes h m) (offset + int i * int (typeSize_spec tc)))
                        [0..<nat n])))"
proof (intro conjI impI ballI allI)
  show "getTypeSize (typeCharOf 0) = 1" "getTypeSize (typeCharOf 1) = 1"
    "getTypeSize (typeCharOf 2) = 4" "getTypeSize (typeCharOf 3) = 4"
    "getTypeSize (typeCharOf 4) = 4" "getTypeSize (typeCharOf 5) = 8"
    by (simp_all add: getTypeSize_def typeCharOf_def VAR_TYPE_MAP_def)
next
  fix c assume "c \<in> set VAR_TYPE_MAP"
  then show "getTypeSize (Some c) = int (typeSize_spec c)" by (rule getTypeSize_spec)
next
  assume "tc \<in> set VAR_TYPE_MAP \<and> sharedMem st = Some m \<and> inRange (bytes h m) offset (typeSize_spec tc)"
  then show "IBT_unpackSingleValue h st offset (Some tc) = Inr (decode_spec tc (bytes h m) offset)"
    by (simp add: IBT_unpackSingleValue_def unpackValue_decodes)
next
  assume "tc \<in> set VAR_TYPE_MAP \<and> sharedMem st = Some m \<and> inRange (bytes h m) offset (typeSize_spec tc)"
  then show "IBT_unpackValues h st offset (Some tc) 1 = Inr (decode_spec tc (bytes h m) offset)"
    by (simp add: IBT_unpackValues_one)
next
  fix vs show "decode_spec tc (bytes h m) offset \<noteq> Array vs" by (rule decode_spec_scalar)
next
  assume "tc \<in> set VAR_TYPE_MAP \<and> sharedMem st = Some m \<and> \<not> inRange (bytes h m) offset (typeSize_spec tc)"
  then show "IBT_unpackSingleValue h st offset (Some tc) = Inl RangeError"
    by (simp add: IBT_unpackSingleValue_def unpackValue_out_of_range)
next
  assume a: "tc \<in> set VAR_TYPE_MAP \<and> sharedMem st = Some m \<and> 1 < n \<and>
    (\<forall>i < nat n. inRange (bytes h m) (offset + int i * int (typeSize_spec tc)) (typeSize_spec tc))"
  then have "n \<noteq> 1" by simp
  with a show "IBT_unpackValues h st offset (Some tc) n =
        Inr (Array (map (\<lambda>i. decode_spec tc (bytes h m) (offset + int i * int (typeSize_spec tc)))
                        [0..<nat n]))"
    by (intro IBT_unpackValues_many) simp_all
qed

theorem value_codec_witness:
  "CHR ''f'' \<in> set VAR_TYPE_MAP \<and> sharedMem replayOpened = Some replayData \<and> (1::int) < 2 \<and>
   inRange (bytes replayHeap replayData) 288 4 \<and> inRange (bytes replayHeap replayData) 292 4 \<and>
   IBT_unpackValues replayHeap replayOpened 288 (Some CHR ''f'') 1 = Inr (Float32 0x41200000) \<and>
   IBT_unpackValues replayHeap replayOpened 288 (Some CHR ''f'') 2
     = Inr (Array [Float32 0x41200000, Float32 0x41400000])"
proof -
  have m: "sharedMem replayOpened = Some replayData"
    by (simp add: replayOpened_def IBT_open_def)
  have tc: "CHR ''f'' \<in> set VAR_TYPE_MAP"
    by (simp add: VAR_TYPE_MAP_def)
  have sz: "typeSize_spec CHR ''f'' = 4"
    by (simp add: typeSize_spec_def)
  have len: "length replayFile = 296"
    by (simp add: replayFile_def ascii_def)
  have r: "inRange (bytes replayHeap replayData) 288 4" "inRange (bytes replayHeap replayData) 292 4"
    by (simp_all add: replay_bytes inRange_def len)
  have all: "\<forall>i < nat 2. inRange (bytes replayHeap replayData) (288 + int i * int (typeSize_spec CHR ''f'')) (typeSize_spec CHR ''f'')"
  proof (intro allI impI)
    fix i :: nat assume "i < nat 2"
    then have "i = 0 \<or> i = 1" by auto
    then show "inRange (bytes replayHeap replayData) (288 + int i * int (typeSize_spec CHR ''f'')) (typeSize_spec CHR ''f'')"
      using r by (auto simp: sz)
  qed
  have "map ((!) replayFile) [288, 289, 290, 291, 292, 293, 294, 295] = [0, 0, 0x20, 0x41, 0, 0, 0x40, 0x41]"
    by code_simp
  then have b: "replayFile ! 288 = 0" "replayFile ! 289 = 0" "replayFile ! 290 = 0x20" "replayFile ! 291 = 0x41"
    "replayFile ! 292 = 0" "replayFile ! 293 = 0" "replayFile ! 294 = 0x40" "replayFile ! 295 = 0x41"
    by simp_all
  have d0: "decode_spec CHR ''f'' replayFile 288 = Float32 0x41200000"
    by (simp add: decode_spec_def le_value4 b)
  have d1: "decode_spec CHR ''f'' replayFile 292 = Float32 0x41400000"
    by (simp add: decode_spec_def le_value4 b)
  from value_codec [of "CHR ''f''" replayOpened replayData replayHeap 288 2] tc m r all
  have "IBT_unpackValues replayHeap replayOpened 288 (Some CHR ''f'') 1 = Inr (decode_spec CHR ''f'' (bytes replayHeap replayData) 288)"
    and "IBT_unpackValues replayHeap replayOpened 288 (Some CHR ''f'') 2 =
        Inr (Array (map (\<lambda>i. decode_spec CHR ''f'' (bytes replayHeap replayData) (288 + int i * int (typeSize_spec CHR ''f'')))
                        [0..<nat 2]))"
    by (simp_all add: sz)
  then show ?thesis
    using tc m r by (simp add: replay_bytes sz d0 d1 numeral_2_eq_2 upt_rec)
qed

section \<open>The binary layout\<close>

lemma getNumber_eq: "getNumber h s off = readInt32LE (bytes h (s_sharedMem s)) (s_offset s + off)"
  by (cases "readInt32LE (bytes h (s_sharedMem s)) (s_offset s + off)")
     (simp_all add: getNumber_def getValue_def)

lemma Header_varBuf_layout:
  assumes "Header_numBuf h s = Inr nb" "Header_bufLen h s = Inr bl"
  shows "Header_varBuf h s = Inr (map (\<lambda>i. new_VarBuffer (s_sharedMem s) (48 + int i * 16) bl) [0..<nat nb])"
  using assms by (simp add: Header_varBuf_def)

lemma IBT_getVarHeaders_layout:
  assumes "varHeaders st = None" "header st = Some hdr" "sharedMem st = Some m"
    "Header_numVars h hdr = Inr nv" "Header_varHeaderOffset h hdr = Inr vo"
  shows "fst (IBT_getVarHeaders h st) = Inr (map (\<lambda>i. \<lparr>s_sharedMem = m, s_offset = vo + int i * 144\<rparr>) [0..<nat nv])"
  using assms by (simp add: IBT_getVarHeaders_def Let_def)

text \<open>
  Claim C9. The offsets of the binary layout are fixed: the header fields are 32-bit
  little-endian integers at the byte offsets 0, 4, 8, ..., 36; the descriptors of the
  rotating buffers are read at 48 + 16 i, one for each buffer; the descriptor table has
  exactly \<open>numVars\<close> records, the \<open>i\<close>-th read at \<open>varHeaderOffset + 144 i\<close>; and \<open>open\<close>
  puts the disk sub-header of a replay file at offset 112.
\<close>

theorem layout_constants:
  "Header_version h s = readInt32LE (bytes h (s_sharedMem s)) (s_offset s + 0) \<and>
   Header_status h s = readInt32LE (bytes h (s_sharedMem s)) (s_offset s + 4) \<and>
   Header_tickRate h s = readInt32LE (bytes h (s_sharedMem s)) (s_offset s + 8) \<and>
   Header_sessionInfoUpdate h s = readInt32LE (bytes h (s_sharedMem s)) (s_offset s + 12) \<and>
   Header_sessionInfoLen h s = readInt32LE (bytes h (s_sharedMem s)) (s_offset s + 16) \<and>
   Header_sessionInfoOffset h s = readInt32LE (bytes h (s_sharedMem s)) (s_offset s + 20) \<and>
   Header_numVars h s = readInt32LE (bytes h (s_sharedMem s)) (s_offset s + 24) \<and>
   Header_varHeaderOffset h s = readInt32LE (bytes h (s_sharedMem s)) (s_offset s + 28) \<and>
   Header_numBuf h s = readInt32LE (bytes h (s_sharedMem s)) (s_offset s + 32) \<and>
   Header_bufLen h s = readInt32LE (bytes h (s_sharedMem s)) (s_offset s + 36) \<and>
   (Header_numBuf h s = Inr nb \<and> Header_bufLen h s = Inr bl \<longrightarrow>
      (\<exists>bufs. Header_varBuf h s = Inr bufs \<and> int (length bufs) = max 0 nb \<and>
         (\<forall>i < length bufs. s_offset (bufs ! i) = 48 + int i * 16 \<and>
                             s_sharedMem (bufs ! i) = s_sharedMem s))) \<and>
   (varHeaders st = None \<and> header st = Some hdr \<and> sharedMem st = Some m \<and>
    Header_numVars h hdr = Inr nv \<and> Header_varHeaderOffset h hdr = Inr vo \<longrightarrow>
      (\<exists>vhs. fst (IBT_getVarHeaders h st) = Inr vhs \<and> int (length vhs) = max 0 nv \<and>
         (\<forall>i < length vhs. s_offset (vhs ! i) = vo + int i * 144 \<and> s_sharedMem (vhs ! i) = m))) \<and>
   header (IBT_open path fileData st) = Some \<lparr>s_sharedMem = fileData, s_offset = 0\<rparr> \<and>
   diskHeader (IBT_open path fileData st) = Some \<lparr>s_sharedMem = fileData, s_offset = 112\<rparr>"
proof (intro conjI impI)
  assume a: "Header_numBuf h s = Inr nb \<and> Header_bufLen h s = Inr bl"
  show "\<exists>bufs. Header_varBuf h s = Inr bufs \<and> int (length bufs) = max 0 nb \<and>
         (\<forall>i < length bufs. s_offset (bufs ! i) = 48 + int i * 16 \<and>
                             s_sharedMem (bufs ! i) = s_sharedMem s)"
    using Header_varBuf_layout [of h s nb bl] a by (simp add: new_VarBuffer_def)
next
  assume a: "varHeaders st = None \<and> header st = Some hdr \<and> sharedMem st = Some m \<and>
    Header_numVars h hdr = Inr nv \<and> Header_varHeaderOffset h hdr = Inr vo"
  show "\<exists>vhs. fst (IBT_getVarHeaders h st) = Inr vhs \<and> int (length vhs) = max 0 nv \<and>
         (\<forall>i < length vhs. s_offset (vhs ! i) = vo + int i * 144 \<and> s_sharedMem (vhs ! i) = m)"
    using IBT_getVarHeaders_layout [of st hdr m h nv vo] a by simp
qed (simp_all add: getNumber_eq Header_version_def Header_status_def Header_tickRate_def
      Header_sessionInfoUpdate_def Header_sessionInfoLen_def Header_sessionInfoOffset_def
      Header_numVars_def Header_varHeaderOffset_def Header_numBuf_def Header_bufLen_def IBT_open_def)

lemma replayOpened_fields:
  "varHeaders replayOpened = None"
  "header replayOpened = Some \<lparr>s_sharedMem = replayData, s_offset = 0\<rparr>"
  "diskHeader replayOpened = Some \<lparr>s_sharedMem = replayData, s_offset = 112\<rparr>"
  "sharedMem replayOpened = Some replayData"
  by (simp_all add: replayOpened_def IBT_open_def new_IBT_def)

lemma replay_header_values:
  "Header_numVars replayHeap \<lparr>s_sharedMem = replayData, s_offset = 0\<rparr> = Inr 1"
  "Header_varHeaderOffset replayHeap \<lparr>s_sharedMem = replayData, s_offset = 0\<rparr> = Inr 144"
  "Header_numBuf replayHeap \<lparr>s_sharedMem = replayData, s_offset = 0\<rparr> = Inr 1"
  "Header_bufLen replayHeap \<lparr>s_sharedMem = replayData, s_offset = 0\<rparr> = Inr 4"
  "DiskSubHeader_sessionRecordCount replayHeap \<lparr>s_sharedMem = replayData, s_offset = 112\<rparr> = Inr 2"
  by code_simp+

theorem layout_constants_witness:
  "Header_numBuf replayHeap \<lparr>s_sharedMem = replayData, s_offset = 0\<rparr> = Inr 1 \<and>
   Header_bufLen replayHeap \<lparr>s_sharedMem = replayData, s_offset = 0\<rparr> = Inr 4 \<and>
   Header_varBuf replayHeap \<lparr>s_sharedMem = replayData, s_offset = 0\<rparr> = Inr [new_VarBuffer replayData 48 4] \<and>
   varHeaders replayOpened = None \<and>
   header replayOpened = Some \<lparr>s_sharedMem = replayData, s_offset = 0\<rparr> \<and>
   sharedMem replayOpened = Some replayData \<and>
   Header_numVars replayHeap \<lparr>s_sharedMem = replayData, s_offset = 0\<rparr> = Inr 1 \<and>
   Header_varHeaderOffset replayHeap \<lparr>s_sharedMem = replayData, s_offset = 0\<rparr> = Inr 144 \<and>
   fst (IBT_getVarHeaders replayHeap replayOpened) = Inr [\<lparr>s_sharedMem = replayData, s_offset = 144\<rparr>]"
proof -
  note v = replay_header_values
  from layout_constants [of replayHeap "\<lparr>s_sharedMem = replayData, s_offset = 0\<rparr>" 1 4
      replayOpened "\<lparr>s_sharedMem = replayData, s_offset = 0\<rparr>" replayData 1 144]
  have "\<exists>bufs. Header_varBuf replayHeap \<lparr>s_sharedMem = replayData, s_offset = 0\<rparr> = Inr bufs \<and> int (length bufs) = max 0 1 \<and>
         (\<forall>i < length bufs. s_offset (bufs ! i) = 48 + int i * 16 \<and>
                             s_sharedMem (bufs ! i) = replayData)"
    and "\<exists>vhs. fst (IBT_getVarHeaders replayHeap replayOpened) = Inr vhs \<and> int (length vhs) = max 0 1 \<and>
         (\<forall>i < length vhs. s_offset (vhs ! i) = 144 + int i * 144 \<and> s_sharedMem (vhs ! i) = replayData)"
    using v replayOpened_fields by simp_all
  moreover have "Header_varBuf replayHeap \<lparr>s_sharedMem = replayData, s_offset = 0\<rparr> = Inr [new_VarBuffer replayData 48 4]"
    by (simp add: Header_varBuf_def v)
  moreover have "fst (IBT_getVarHeaders replayHeap replayOpened) = Inr [\<lparr>s_sharedMem = replayData, s_offset = 144\<rparr>]"
    by (simp add: IBT_getVarHeaders_def v replayOpened_fields Let_def)
  ultimately show ?thesis
    using v replayOpened_fields by simp
qed

section \<open>Reading the replay file\<close>

subsection \<open>Reading one record\<close>

text \<open>What \<open>get\<close> returns outside the recorded indices, and for a name the dictionary does not know.\<close>

lemma IBT_get_outside:
  assumes "header st = Some hdr" "diskHeader st = Some dh" "sharedMem st = Some m"
    "DiskSubHeader_sessionRecordCount h dh = Inr cnt" "index < 0 \<or> cnt \<le> index"
  shows "IBT_get h st index key = Inr Null"
  using assms by (auto simp: IBT_get_def)

lemma IBT_get_unknown:
  assumes "header st = Some hdr" "diskHeader st = Some dh" "sharedMem st = Some m"
    "DiskSubHeader_sessionRecordCount h dh = Inr cnt" "varHeadersDict st key = None"
  shows "IBT_get h st index key = Inr Null"
  using assms by (auto simp: IBT_get_def)

text \<open>
  Claim C1. \<open>get(index, name)\<close> is to be absent exactly when the index is outside
  \<open>[0, sessionRecordCount)\<close> or the name is not a variable of the file, and the decoded
  value otherwise. The code looks the name up in a dictionary that only a read of
  \<open>varHeadersNamesList\<close> fills: on the fabricated file, which has two records and the
  variable \<open>Speed\<close>, \<open>get(0, "Speed")\<close> and \<open>get(1, "Speed")\<close> of the reader just opened are
  \<open>null\<close>, and after a read of the name list \<open>get(1, "Speed")\<close> is 12.0.
\<close>

theorem IBT_get_before_names_list:
  "fst (IBT_varHeadersNamesList replayHeap replayOpened) = Inr (Some [js ''Speed'']) \<and>
   DiskSubHeader_sessionRecordCount replayHeap \<lparr>s_sharedMem = replayData, s_offset = 112\<rparr> = Inr 2 \<and>
   IBT_get replayHeap replayOpened 0 (js ''Speed'') = Inr Null \<and>
   IBT_get replayHeap replayOpened 1 (js ''Speed'') = Inr Null \<and>
   IBT_get replayHeap replayLoaded 1 (js ''Speed'') = Inr (Float32 0x41400000)"
  by code_simp

subsection \<open>Reading all records\<close>

lemma mapR_cong: "(\<And>x. x \<in> set xs \<Longrightarrow> f x = g x) \<Longrightarrow> mapR f xs = mapR g xs"
  by (induction xs) simp_all

lemma mapR_Inl: "xs \<noteq> [] \<Longrightarrow> (\<And>x. x \<in> set xs \<Longrightarrow> f x = Inl e) \<Longrightarrow> mapR f xs = Inl e"
  by (cases xs) simp_all

lemma mapR_Inr_nth:
  "mapR f xs = Inr ys \<Longrightarrow> length ys = length xs \<and> (\<forall>i < length xs. f (xs ! i) = Inr (ys ! i))"
proof (induction xs arbitrary: ys)
  case Nil
  then show ?case by simp
next
  case (Cons x xs)
  from Cons.prems obtain y ys' where y: "f x = Inr y" and ys': "mapR f xs = Inr ys'" and e: "ys = y # ys'"
    by (cases "f x"; cases "mapR f xs") auto
  from Cons.IH [OF ys'] y e show ?case
    by (auto simp: nth_Cons')
qed

text \<open>The reads of a file that is long enough for its record count to be read.\<close>

lemma opened_header_reads:
  assumes "DiskSubHeader_sessionRecordCount h \<lparr>s_sharedMem = m, s_offset = 112\<rparr> = Inr cnt"
  shows "\<exists>bl. Header_bufLen h \<lparr>s_sharedMem = m, s_offset = 0\<rparr> = Inr bl"
proof -
  from assms have "inRange (bytes h m) 140 4"
    by (auto simp: DiskSubHeader_sessionRecordCount_def getNumber_eq readInt32LE_def split: if_splits)
  then have "inRange (bytes h m) 36 4"
    by (simp add: inRange_def)
  then show ?thesis
    by (simp add: Header_bufLen_def getNumber_eq readInt32LE_def Let_def)
qed

lemma IBT_get_in_range:
  assumes "header st = Some hdr" "diskHeader st = Some dh" "sharedMem st = Some m"
    "varHeadersDict st key = Some vh"
    "DiskSubHeader_sessionRecordCount h dh = Inr cnt" "Header_bufLen h hdr = Inr bl"
    "0 \<le> i" "i < cnt"
  shows "IBT_get h st i key =
    bindR (VarHeader_type h vh) (\<lambda>ty.
    bindR (VarHeader_offset h vh) (\<lambda>vo.
    bindR (firstBufOffset h hdr) (\<lambda>bo.
    bindR (VarHeader_count h vh) (\<lambda>count.
      IBT_unpackValues h st (vo + bo + i * bl) (typeCharOf ty) count))))"
  using assms by (simp add: IBT_get_def)

lemma IBT_getAll_form:
  assumes "header st = Some hdr" "diskHeader st = Some dh" "sharedMem st = Some m"
    "varHeadersDict st key = Some vh"
    "DiskSubHeader_sessionRecordCount h dh = Inr cnt" "Header_bufLen h hdr = Inr bl"
  shows "IBT_getAll h st key =
    bindR (VarHeader_type h vh) (\<lambda>ty.
    bindR (VarHeader_offset h vh) (\<lambda>vo.
    bindR (firstBufOffset h hdr) (\<lambda>bo.
    bindR (mapR (\<lambda>i. bindR (VarHeader_count h vh) (\<lambda>count.
                        IBT_unpackValues h st (vo + bo + int i * bl) (typeCharOf ty) count))
                [0..<nat cnt])
      (\<lambda>results. Inr (Array results)))))"
  using assms by (simp add: IBT_getAll_def)

lemma IBT_getAll_by_get:
  assumes o: "header st = Some hdr" "diskHeader st = Some dh" "sharedMem st = Some m"
    and k: "varHeadersDict st key = Some vh"
    and c: "DiskSubHeader_sessionRecordCount h dh = Inr cnt" and b: "Header_bufLen h hdr = Inr bl"
    and p: "0 < cnt"
  shows "IBT_getAll h st key = bindR (getAll_by_get h st key cnt) (\<lambda>vs. Inr (Array vs))"
proof -
  let ?g = "\<lambda>i. IBT_get h st (int i) key"
  have ne: "[0..<nat cnt] \<noteq> []" using p by simp
  have get: "\<And>i. i \<in> set [0..<nat cnt] \<Longrightarrow> ?g i =
    bindR (VarHeader_type h vh) (\<lambda>ty.
    bindR (VarHeader_offset h vh) (\<lambda>vo.
    bindR (firstBufOffset h hdr) (\<lambda>bo.
    bindR (VarHeader_count h vh) (\<lambda>count.
      IBT_unpackValues h st (vo + bo + int i * bl) (typeCharOf ty) count))))"
    by (rule IBT_get_in_range [OF o k c b]) auto
  note all = IBT_getAll_form [OF o k c b]
  show ?thesis
  proof (cases "VarHeader_type h vh")
    case (Inl e)
    then have "mapR ?g [0..<nat cnt] = Inl e"
      by (intro mapR_Inl [OF ne]) (simp add: get)
    with Inl show ?thesis by (simp add: all getAll_by_get_def)
  next
    case ty: (Inr ty)
    show ?thesis
    proof (cases "VarHeader_offset h vh")
      case (Inl e)
      then have "mapR ?g [0..<nat cnt] = Inl e"
        using ty by (intro mapR_Inl [OF ne]) (simp add: get)
      with Inl ty show ?thesis by (simp add: all getAll_by_get_def)
    next
      case vo: (Inr vo)
      show ?thesis
      proof (cases "firstBufOffset h hdr")
        case (Inl e)
        then have "mapR ?g [0..<nat cnt] = Inl e"
          using ty vo by (intro mapR_Inl [OF ne]) (simp add: get)
        with Inl ty vo show ?thesis by (simp add: all getAll_by_get_def)
      next
        case bo: (Inr bo)
        have "mapR ?g [0..<nat cnt] =
          mapR (\<lambda>i. bindR (VarHeader_count h vh) (\<lambda>count.
                        IBT_unpackValues h st (vo + bo + int i * bl) (typeCharOf ty) count)) [0..<nat cnt]"
          by (rule mapR_cong) (simp add: get ty vo bo)
        with ty vo bo show ?thesis by (simp add: all getAll_by_get_def)
      qed
    qed
  qed
qed

lemma IBT_getAll_empty:
  assumes o: "header st = Some hdr" "diskHeader st = Some dh" "sharedMem st = Some m"
    and k: "varHeadersDict st key = Some vh"
    and c: "DiskSubHeader_sessionRecordCount h dh = Inr cnt" and b: "Header_bufLen h hdr = Inr bl"
    and p: "cnt \<le> 0" and r: "IBT_getAll h st key = Inr r"
  shows "r = Array []"
  using r p unfolding IBT_getAll_form [OF o k c b]
  by (cases "VarHeader_type h vh"; cases "VarHeader_offset h vh"; cases "firstBufOffset h hdr") simp_all

lemma replayLoaded_fields:
  "header replayLoaded = Some \<lparr>s_sharedMem = replayData, s_offset = 0\<rparr>"
  "diskHeader replayLoaded = Some \<lparr>s_sharedMem = replayData, s_offset = 112\<rparr>"
  "sharedMem replayLoaded = Some replayData"
  "varHeadersDict replayLoaded (js ''Speed'') = Some \<lparr>s_sharedMem = replayData, s_offset = 144\<rparr>"
  "DiskSubHeader_sessionRecordCount replayHeap \<lparr>s_sharedMem = replayData, s_offset = 112\<rparr> = Inr 2"
  by code_simp+

lemma replayLoaded_gets:
  "IBT_get replayHeap replayLoaded (int 0) (js ''Speed'') = Inr (Float32 0x41200000)"
  "IBT_get replayHeap replayLoaded (int 1) (js ''Speed'') = Inr (Float32 0x41400000)"
  by code_simp+

text \<open>
  With the dictionary loaded. For an open replay file whose record count can be read
  and a name that the reader's dictionary knows, \<open>getAll(name)\<close> is the sequence of the
  results of \<open>get(i, name)\<close> for \<open>i\<close> in increasing order from 0: with at least one record
  the two agree also in the exception they raise, and whenever \<open>getAll\<close> returns, it
  returns a sequence of \<open>sessionRecordCount\<close> elements (none for a count below 0) whose
  \<open>i\<close>-th element is the result of \<open>get(i, name)\<close>.
\<close>

lemma IBT_getAll_refines_get:
  assumes o: "header st = Some \<lparr>s_sharedMem = m, s_offset = 0\<rparr>"
      "diskHeader st = Some \<lparr>s_sharedMem = m, s_offset = 112\<rparr>" "sharedMem st = Some m"
    and k: "varHeadersDict st key = Some vh"
    and c: "DiskSubHeader_sessionRecordCount h \<lparr>s_sharedMem = m, s_offset = 112\<rparr> = Inr cnt"
  shows "(0 < cnt \<longrightarrow> IBT_getAll h st key = bindR (getAll_by_get h st key cnt) (\<lambda>vs. Inr (Array vs))) \<and>
         (\<forall>r. IBT_getAll h st key = Inr r \<longrightarrow>
            (\<exists>vs. r = Array vs \<and> int (length vs) = max 0 cnt \<and>
                  (\<forall>i < length vs. IBT_get h st (int i) key = Inr (vs ! i))))"
proof (intro conjI impI allI)
  from opened_header_reads [OF c] obtain bl
    where b: "Header_bufLen h \<lparr>s_sharedMem = m, s_offset = 0\<rparr> = Inr bl" ..
  {
    assume "0 < cnt"
    then show "IBT_getAll h st key = bindR (getAll_by_get h st key cnt) (\<lambda>vs. Inr (Array vs))"
      by (rule IBT_getAll_by_get [OF o k c b])
  }
  fix r assume r: "IBT_getAll h st key = Inr r"
  show "\<exists>vs. r = Array vs \<and> int (length vs) = max 0 cnt \<and>
                  (\<forall>i < length vs. IBT_get h st (int i) key = Inr (vs ! i))"
  proof (cases "0 < cnt")
    case True
    from r IBT_getAll_by_get [OF o k c b True]
    obtain vs where vs: "getAll_by_get h st key cnt = Inr vs" and rv: "r = Array vs"
      by (cases "getAll_by_get h st key cnt") auto
    from mapR_Inr_nth [OF vs [unfolded getAll_by_get_def]] True rv
    show ?thesis by auto
  next
    case False
    then have "cnt \<le> 0" by simp
    from IBT_getAll_empty [OF o k c b this r] False show ?thesis by simp
  qed
qed

lemma IBT_getAll_refines_get_loaded:
  "header replayLoaded = Some \<lparr>s_sharedMem = replayData, s_offset = 0\<rparr> \<and>
   diskHeader replayLoaded = Some \<lparr>s_sharedMem = replayData, s_offset = 112\<rparr> \<and>
   sharedMem replayLoaded = Some replayData \<and>
   varHeadersDict replayLoaded (js ''Speed'') = Some \<lparr>s_sharedMem = replayData, s_offset = 144\<rparr> \<and>
   DiskSubHeader_sessionRecordCount replayHeap \<lparr>s_sharedMem = replayData, s_offset = 112\<rparr> = Inr 2 \<and>
   (0 :: int) < 2 \<and>
   getAll_by_get replayHeap replayLoaded (js ''Speed'') 2 = Inr [Float32 0x41200000, Float32 0x41400000] \<and>
   IBT_getAll replayHeap replayLoaded (js ''Speed'') = Inr (Array [Float32 0x41200000, Float32 0x41400000])"
proof -
  note f = replayLoaded_fields
  have two: "[0..<nat 2] = [0, 1]"
    by (simp add: numeral_2_eq_2)
  have g: "getAll_by_get replayHeap replayLoaded (js ''Speed'') 2 = Inr [Float32 0x41200000, Float32 0x41400000]"
    unfolding getAll_by_get_def two using replayLoaded_gets by simp
  from IBT_getAll_refines_get [OF f(1) f(2) f(3) f(4) f(5)]
  have "IBT_getAll replayHeap replayLoaded (js ''Speed'')
          = bindR (getAll_by_get replayHeap replayLoaded (js ''Speed'') 2) (\<lambda>vs. Inr (Array vs))"
    by simp
  with g f show ?thesis by simp
qed

text \<open>
  Claim C5. \<open>getAll(name)\<close> is to be, for every open replay file and every variable
  name, the sequence of the results of \<open>get(i, name)\<close> for \<open>i\<close> from 0, of length
  \<open>sessionRecordCount\<close>. On the fabricated file, which has two records and the variable
  \<open>Speed\<close>, \<open>getAll("Speed")\<close> of the reader just opened is \<open>null\<close>, not a sequence of two
  elements (the two calls of \<open>get\<close> give \<open>null\<close> each); after a read of the name list it
  is the sequence of 10.0 and 12.0.
\<close>

theorem IBT_getAll_before_names_list:
  "fst (IBT_varHeadersNamesList replayHeap replayOpened) = Inr (Some [js ''Speed'']) \<and>
   DiskSubHeader_sessionRecordCount replayHeap \<lparr>s_sharedMem = replayData, s_offset = 112\<rparr> = Inr 2 \<and>
   IBT_getAll replayHeap replayOpened (js ''Speed'') = Inr Null \<and>
   getAll_by_get replayHeap replayOpened (js ''Speed'') 2 = Inr [Null, Null] \<and>
   IBT_getAll replayHeap replayLoaded (js ''Speed'')
     = Inr (Array [Float32 0x41200000, Float32 0x41400000])"
  by code_simp

section \<open>The rotating buffers\<close>

subsection \<open>Freezing\<close>

lemma VarBuffer_freeze_frozen:
  assumes "VarBuffer_freeze h vb = Inr vb'"
  shows "VarBuffer_isMemoryFrozen vb' \<and> VarBuffer_bufOffset h' vb' = Inr 0 \<and>
         (\<exists>bo. VarBuffer_rawBufOffset h vb = Inr bo \<and>
               VarBuffer_getMemory vb' = slice (s_sharedMem vb) bo (bo + v_bufLen vb))"
  using assms
  by (cases "VarBuffer_rawBufOffset h vb")
     (auto simp: VarBuffer_freeze_def VarBuffer_isMemoryFrozen_def VarBuffer_bufOffset_def
        VarBuffer_getMemory_def)

lemma VarBuffer_unfreeze_live:
  "\<not> VarBuffer_isMemoryFrozen (VarBuffer_unfreeze vb) \<and>
   VarBuffer_bufOffset h (VarBuffer_unfreeze vb) = VarBuffer_rawBufOffset h vb \<and>
   VarBuffer_getMemory (VarBuffer_unfreeze vb) = s_sharedMem vb"
  by (simp add: VarBuffer_unfreeze_def VarBuffer_isMemoryFrozen_def VarBuffer_bufOffset_def
      VarBuffer_getMemory_def VarBuffer_rawBufOffset_def getNumber_eq)

lemma bytes_slice:
  assumes "byteOffset b + byteLength b \<le> length (h (mem b))"
  shows "bytes h (slice b s e) = slice_bytes (bytes h b) s e"
proof -
  have len: "length (bytes h b) = byteLength b"
    using assms by (simp add: bytes_def)
  define n where "n = int (byteLength b)"
  define s' where "s' = slice_idx n s"
  define e' where "e' = slice_idx n e"
  have s0: "0 \<le> s'" "s' \<le> n"
    by (auto simp: s'_def slice_idx_def n_def)
  have e0: "e' \<le> n"
    by (auto simp: e'_def slice_idx_def n_def)
  have "take (nat (e' - s')) (drop (byteOffset b + nat s') (h (mem b)))
      = take (nat (e' - s')) (drop (nat s') (take (byteLength b) (drop (byteOffset b) (h (mem b)))))"
    using s0 e0 by (simp add: drop_take n_def add.commute min_def nat_diff_distrib nat_le_iff)
  moreover have "min (length (h (mem b)) - byteOffset b) (byteLength b) = byteLength b"
    using assms by simp
  ultimately show ?thesis
    by (simp add: bytes_def slice_def slice_bytes_def Let_def n_def s'_def e'_def)
qed

text \<open>
  Claim C3. After \<open>freeze\<close> the snapshot is to be a copy of its own, which a later write
  to the shared region does not change. In the code the snapshot is \<open>slice\<close> of the
  shared buffer, a window on the same memory: on the live region, buffer 1 is frozen and
  reads 12.0 at offset 0 of \<open>getMemory()\<close>; after one byte of the region is written
  (0x60 at 322), the same read of the frozen buffer gives 14.0.
\<close>

theorem VarBuffer_freeze_shares_memory:
  "VarBuffer_freeze liveHeap (new_VarBuffer liveData 64 64) = Inr frozenBuffer \<and>
   VarBuffer_getMemory frozenBuffer = \<lparr>mem = 0, byteOffset = 320, byteLength = 64\<rparr> \<and>
   unpackValue (bytes liveHeap (VarBuffer_getMemory frozenBuffer)) 0 (Some CHR ''f'')
     = Inr (Float32 0x41400000) \<and>
   unpackValue (bytes (poke liveHeap 0 322 0x60) (VarBuffer_getMemory frozenBuffer)) 0 (Some CHR ''f'')
     = Inr (Float32 0x41600000) \<and>
   bytes (poke liveHeap 0 322 0x60) (VarBuffer_getMemory frozenBuffer) ! 2 = 0x60 \<and>
   bytes liveHeap (VarBuffer_getMemory frozenBuffer) ! 2 = 0x40"
  by code_simp

subsection \<open>Selecting a buffer\<close>

lemma Header_varBuf_distinct:
  assumes "Header_varBuf h hdr = Inr bufs"
  shows "distinct bufs"
proof -
  have inj: "inj_on (\<lambda>i. new_VarBuffer m (48 + int i * 16) bl) A" for m bl A
    by (auto simp: inj_on_def new_VarBuffer_def)
  from assms show ?thesis
    by (cases "Header_numBuf h hdr"; cases "Header_bufLen h hdr")
       (auto simp: Header_varBuf_def distinct_map inj split: if_splits)
qed

lemma sortByTickCount_sorted:
  assumes len: "2 \<le> length bufs" and d: "distinct bufs"
    and t: "\<And>b. b \<in> set bufs \<Longrightarrow> VarBuffer_tickCount h b = Inr (tk b)"
  shows "\<exists>srt. sortByTickCount h bufs = Inr srt \<and> set srt = set bufs \<and>
           length srt = length bufs \<and> distinct srt \<and> sorted (map (\<lambda>b. - tk b) srt)"
proof -
  let ?k = "\<lambda>(t :: int, b :: VarBuffer). - t"
  let ?zs = "sort_key ?k (zip (map tk bufs) bufs)"
  have ticks: "mapR (VarBuffer_tickCount h) bufs = Inr (map tk bufs)"
    by (rule mapR_all_Inr) (rule t)
  have res: "sortByTickCount h bufs = Inr (map snd ?zs)"
    using len by (simp add: sortByTickCount_def ticks)
  have zip: "zip (map tk bufs) bufs = map (\<lambda>b. (tk b, b)) bufs"
    by (induction bufs) simp_all
  have setz: "set ?zs = (\<lambda>b. (tk b, b)) ` set bufs"
    by (simp add: zip)
  have s: "set (map snd ?zs) = set bufs"
    by (simp add: zip image_image)
  have l: "length (map snd ?zs) = length bufs"
    by (simp add: zip)
  have "distinct ?zs"
    using d by (simp add: zip distinct_map inj_on_def)
  moreover have "inj_on snd (set ?zs)"
    unfolding setz by (auto simp: inj_on_def)
  ultimately have dd: "distinct (map snd ?zs)"
    by (simp add: distinct_map)
  have "map (\<lambda>b. - tk b) (map snd ?zs) = map ?k ?zs"
    unfolding map_map by (rule map_cong) (use setz in auto)
  then have so: "sorted (map (\<lambda>b. - tk b) (map snd ?zs))"
    by (simp only: sorted_sort_key)
  from res s l dd so show ?thesis by blast
qed

lemma second_of_sorted:
  fixes tk :: "'b \<Rightarrow> int"
  assumes len: "2 \<le> length s" and d: "distinct s" and so: "sorted (map (\<lambda>b. - tk b) s)"
  shows "s ! 0 \<noteq> s ! 1 \<and> tk (s ! 1) \<le> tk (s ! 0) \<and> (\<forall>b' \<in> set s. b' \<noteq> s ! 0 \<longrightarrow> tk b' \<le> tk (s ! 1))"
proof (intro conjI ballI impI)
  have "0 < length s" "1 < length s" using len by linarith+
  with d show "s ! 0 \<noteq> s ! 1"
    by (metis nth_eq_iff_index_eq zero_neq_one)
  have le: "i \<le> j \<Longrightarrow> j < length s \<Longrightarrow> tk (s ! j) \<le> tk (s ! i)" for i j
    using sorted_nth_mono [OF so, of i j] by simp
  from le [of 0 1] len show "tk (s ! 1) \<le> tk (s ! 0)" by simp
  fix b' assume "b' \<in> set s" "b' \<noteq> s ! 0"
  then obtain j where j: "j < length s" "s ! j = b'" "j \<noteq> 0"
    by (metis in_set_conv_nth)
  then have "1 \<le> j" by simp
  from le [OF this j(1)] j(2) show "tk b' \<le> tk (s ! 1)" by simp
qed

lemma bindR_assoc: "bindR (bindR r f) g = bindR r (\<lambda>x. bindR (f x) g)"
  by (cases r) simp_all

lemma bindR_if: "bindR (if c then a else b) g = (if c then bindR a g else bindR b g)"
  by simp

lemma IRSDK_get_reads_selected:
  assumes "sdk_isInitialized st" "sdk_header st = Some hdr" "sdk_varHeadersDict st key = Some vh"
    "IRSDK_getVarBufferLatest h st = Inr (Some b)"
  shows "IRSDK_get h st key = bindR (readVariable h b vh) (\<lambda>v. Inr (Value v))"
  using assms by (simp add: IRSDK_get_def readVariable_def Let_def bindR_assoc bindR_if cong: if_cong)

lemma selects_second:
  assumes a: "sdk_varBufferLatest st = None" "sdk_header st = Some hdr"
    and vb: "Header_varBuf h hdr = Inr bufs" and len: "2 \<le> length bufs"
    and t: "\<And>b. b \<in> set bufs \<Longrightarrow> VarBuffer_tickCount h b = Inr (tk b)"
  shows "\<exists>b top. IRSDK_getVarBufferLatest h st = Inr (Some b) \<and> b \<in> set bufs \<and>
         top \<in> set bufs \<and> top \<noteq> b \<and> tk b \<le> tk top \<and>
         (\<forall>b' \<in> set bufs. tk b' \<le> tk top) \<and>
         (\<forall>b' \<in> set bufs. b' \<noteq> top \<longrightarrow> tk b' \<le> tk b)"
proof -
  from sortByTickCount_sorted [OF len Header_varBuf_distinct [OF vb] t]
  obtain s where s: "sortByTickCount h bufs = Inr s" "set s = set bufs" "length s = length bufs"
    "distinct s" "sorted (map (\<lambda>b. - tk b) s)"
    by blast
  from len s(3) have l2: "2 \<le> length s" by simp
  from second_of_sorted [OF l2 s(4) s(5)]
  have p: "s ! 0 \<noteq> s ! 1" "tk (s ! 1) \<le> tk (s ! 0)" "\<forall>b' \<in> set s. b' \<noteq> s ! 0 \<longrightarrow> tk b' \<le> tk (s ! 1)"
    by simp_all
  have r: "IRSDK_getVarBufferLatest h st = Inr (Some (s ! 1))"
    using a vb s(1) l2 by (simp add: IRSDK_getVarBufferLatest_def)
  have "0 < length s" "1 < length s" using l2 by linarith+
  then have "s ! 1 \<in> set s" "s ! 0 \<in> set s" by (simp_all only: nth_mem)
  then have m: "s ! 1 \<in> set bufs" "s ! 0 \<in> set bufs"
    by (simp_all only: s(2))
  have top: "\<forall>b' \<in> set bufs. tk b' \<le> tk (s ! 0)"
    using p s(2) by (metis order.trans order_refl)
  show ?thesis
    using r m p top s(2) by blast
qed

text \<open>
  Equal tick counts. With the ticks 5, 6 and 6 the unfrozen read selects the third
  buffer, whose tick count is the highest of the region.
\<close>

theorem unfrozen_read_tie:
  "sdk_isInitialized tieReader \<and> sdk_varBufferLatest tieReader = None \<and>
   sdk_header tieReader = Some \<lparr>s_sharedMem = tieData, s_offset = 0\<rparr> \<and>
   Header_varBuf tieHeap \<lparr>s_sharedMem = tieData, s_offset = 0\<rparr>
     = Inr [new_VarBuffer tieData 48 64, new_VarBuffer tieData 64 64, new_VarBuffer tieData 80 64] \<and>
   VarBuffer_tickCount tieHeap (new_VarBuffer tieData 48 64) = Inr 5 \<and>
   VarBuffer_tickCount tieHeap (new_VarBuffer tieData 64 64) = Inr 6 \<and>
   VarBuffer_tickCount tieHeap (new_VarBuffer tieData 80 64) = Inr 6 \<and>
   IRSDK_getVarBufferLatest tieHeap tieReader = Inr (Some (new_VarBuffer tieData 80 64))"
  by code_simp

lemma liveReader_fields:
  "sdk_varBufferLatest liveReader = None"
  "sdk_header liveReader = Some \<lparr>s_sharedMem = liveData, s_offset = 0\<rparr>"
  "Header_varBuf liveHeap \<lparr>s_sharedMem = liveData, s_offset = 0\<rparr>
     = Inr [new_VarBuffer liveData 48 64, new_VarBuffer liveData 64 64]"
  "VarBuffer_tickCount liveHeap (new_VarBuffer liveData 48 64) = Inr 5"
  "VarBuffer_tickCount liveHeap (new_VarBuffer liveData 64 64) = Inr 6"
  "sdk_isInitialized liveReader"
  "sdk_varHeadersDict liveReader (js ''Speed'') = Some \<lparr>s_sharedMem = liveData, s_offset = 112\<rparr>"
  "readVariable liveHeap (new_VarBuffer liveData 48 64) \<lparr>s_sharedMem = liveData, s_offset = 112\<rparr>
     = Inr (Float32 0x41200000)"
  by code_simp+

text \<open>
  Claim C4, as the code has it. With at least two rotating buffers, an unfrozen read
  selects a buffer \<open>b\<close> for which another buffer holds the highest tick count and no
  buffer but that one has a higher tick count than \<open>b\<close>; when the tick counts are
  pairwise different, the tick count of \<open>b\<close> is the second-highest and below the
  highest. A \<open>get\<close> of a variable of the reader's dictionary is the read of that variable
  from \<open>b\<close>. With one buffer, that buffer is the one read. On the live region of two
  buffers (buffer 0 with tick 5 holding 10.0, buffer 1 with tick 6), an unfrozen
  \<open>get("Speed")\<close> of the reader with its dictionary loaded returns 10.0.
\<close>

theorem unfrozen_read_second_in_order:
  "(sdk_isInitialized st \<and> sdk_varBufferLatest st = None \<and> sdk_header st = Some hdr \<and>
    Header_varBuf h hdr = Inr bufs \<and> 2 \<le> length bufs \<and>
    (\<forall>b \<in> set bufs. VarBuffer_tickCount h b = Inr (tk b)) \<longrightarrow>
      (\<exists>b top. IRSDK_getVarBufferLatest h st = Inr (Some b) \<and> b \<in> set bufs \<and>
         top \<in> set bufs \<and> top \<noteq> b \<and> tk b \<le> tk top \<and>
         (\<forall>b' \<in> set bufs. tk b' \<le> tk top) \<and>
         (\<forall>b' \<in> set bufs. b' \<noteq> top \<longrightarrow> tk b' \<le> tk b) \<and>
         (inj_on tk (set bufs) \<longrightarrow>
            tk b < tk top \<and> (\<forall>b' \<in> set bufs. b' \<noteq> top \<and> b' \<noteq> b \<longrightarrow> tk b' < tk b)) \<and>
         (\<forall>key vh. sdk_varHeadersDict st key = Some vh \<longrightarrow>
            IRSDK_get h st key = bindR (readVariable h b vh) (\<lambda>v. Inr (Value v))))) \<and>
   (sdk_isInitialized st \<and> sdk_varBufferLatest st = None \<and> sdk_header st = Some hdr \<and>
    Header_varBuf h hdr = Inr [only] \<longrightarrow>
      IRSDK_getVarBufferLatest h st = Inr (Some only) \<and>
      (\<forall>key vh. sdk_varHeadersDict st key = Some vh \<longrightarrow>
         IRSDK_get h st key = bindR (readVariable h only vh) (\<lambda>v. Inr (Value v)))) \<and>
   IRSDK_get liveHeap liveReader (js ''Speed'') = Inr (Value (Float32 0x41200000))"
proof (intro conjI impI)
  assume a: "sdk_isInitialized st \<and> sdk_varBufferLatest st = None \<and> sdk_header st = Some hdr \<and>
    Header_varBuf h hdr = Inr bufs \<and> 2 \<le> length bufs \<and>
    (\<forall>b \<in> set bufs. VarBuffer_tickCount h b = Inr (tk b))"
  then have i: "sdk_isInitialized st" and l: "sdk_varBufferLatest st = None"
    and hd: "sdk_header st = Some hdr" and vb: "Header_varBuf h hdr = Inr bufs"
    and len: "2 \<le> length bufs" by simp_all
  from a have t: "\<And>b. b \<in> set bufs \<Longrightarrow> VarBuffer_tickCount h b = Inr (tk b)" by simp
  from selects_second [OF l hd vb len t]
  obtain b top where s: "IRSDK_getVarBufferLatest h st = Inr (Some b)" "b \<in> set bufs"
    "top \<in> set bufs" "top \<noteq> b" "tk b \<le> tk top"
    "\<forall>b' \<in> set bufs. tk b' \<le> tk top" "\<forall>b' \<in> set bufs. b' \<noteq> top \<longrightarrow> tk b' \<le> tk b"
    by blast
  have d: "inj_on tk (set bufs) \<longrightarrow>
            tk b < tk top \<and> (\<forall>b' \<in> set bufs. b' \<noteq> top \<and> b' \<noteq> b \<longrightarrow> tk b' < tk b)"
  proof (intro impI conjI ballI)
    assume inj: "inj_on tk (set bufs)"
    from inj s(2) s(3) s(4) have "tk b \<noteq> tk top" by (auto dest: inj_onD)
    with s(5) show "tk b < tk top" by simp
    fix b' assume b': "b' \<in> set bufs" "b' \<noteq> top \<and> b' \<noteq> b"
    with inj s(2) have "tk b' \<noteq> tk b" by (auto dest: inj_onD)
    moreover from s(7) b' have "tk b' \<le> tk b" by simp
    ultimately show "tk b' < tk b" by simp
  qed
  have g: "\<forall>key vh. sdk_varHeadersDict st key = Some vh \<longrightarrow>
            IRSDK_get h st key = bindR (readVariable h b vh) (\<lambda>v. Inr (Value v))"
    using IRSDK_get_reads_selected [OF i hd _ s(1)] by blast
  show "\<exists>b top. IRSDK_getVarBufferLatest h st = Inr (Some b) \<and> b \<in> set bufs \<and>
         top \<in> set bufs \<and> top \<noteq> b \<and> tk b \<le> tk top \<and>
         (\<forall>b' \<in> set bufs. tk b' \<le> tk top) \<and>
         (\<forall>b' \<in> set bufs. b' \<noteq> top \<longrightarrow> tk b' \<le> tk b) \<and>
         (inj_on tk (set bufs) \<longrightarrow>
            tk b < tk top \<and> (\<forall>b' \<in> set bufs. b' \<noteq> top \<and> b' \<noteq> b \<longrightarrow> tk b' < tk b)) \<and>
         (\<forall>key vh. sdk_varHeadersDict st key = Some vh \<longrightarrow>
            IRSDK_get h st key = bindR (readVariable h b vh) (\<lambda>v. Inr (Value v)))"
    using s d g by blast
next
  assume a: "sdk_isInitialized st \<and> sdk_varBufferLatest st = None \<and> sdk_header st = Some hdr \<and>
    Header_varBuf h hdr = Inr [only]"
  then show r: "IRSDK_getVarBufferLatest h st = Inr (Some only)"
    by (simp add: IRSDK_getVarBufferLatest_def sortByTickCount_def)
  from a have i: "sdk_isInitialized st" and hd: "sdk_header st = Some hdr" by simp_all
  show "\<forall>key vh. sdk_varHeadersDict st key = Some vh \<longrightarrow>
         IRSDK_get h st key = bindR (readVariable h only vh) (\<lambda>v. Inr (Value v))"
    using IRSDK_get_reads_selected [OF i hd _ r] by blast
next
  show "IRSDK_get liveHeap liveReader (js ''Speed'') = Inr (Value (Float32 0x41200000))"
    by code_simp
qed

theorem unfrozen_read_second_in_order_witness:
  "sdk_isInitialized liveReader \<and> sdk_varBufferLatest liveReader = None \<and>
   sdk_header liveReader = Some \<lparr>s_sharedMem = liveData, s_offset = 0\<rparr> \<and>
   Header_varBuf liveHeap \<lparr>s_sharedMem = liveData, s_offset = 0\<rparr>
     = Inr [new_VarBuffer liveData 48 64, new_VarBuffer liveData 64 64] \<and>
   VarBuffer_tickCount liveHeap (new_VarBuffer liveData 48 64) = Inr 5 \<and>
   VarBuffer_tickCount liveHeap (new_VarBuffer liveData 64 64) = Inr 6 \<and>
   sdk_varHeadersDict liveReader (js ''Speed'') = Some \<lparr>s_sharedMem = liveData, s_offset = 112\<rparr> \<and>
   IRSDK_getVarBufferLatest liveHeap liveReader = Inr (Some (new_VarBuffer liveData 48 64)) \<and>
   IRSDK_get liveHeap liveReader (js ''Speed'')
     = bindR (readVariable liveHeap (new_VarBuffer liveData 48 64) \<lparr>s_sharedMem = liveData, s_offset = 112\<rparr>)
         (\<lambda>v. Inr (Value v)) \<and>
   readVariable liveHeap (new_VarBuffer liveData 48 64) \<lparr>s_sharedMem = liveData, s_offset = 112\<rparr>
     = Inr (Float32 0x41200000)"
proof -
  note f = liveReader_fields
  let ?b0 = "new_VarBuffer liveData 48 64" and ?b1 = "new_VarBuffer liveData 64 64"
  let ?tk = "\<lambda>b. if b = ?b0 then 5 else (6 :: int)"
  have ne: "?b0 \<noteq> ?b1" by (simp add: new_VarBuffer_def)
  have "\<forall>b \<in> set [?b0, ?b1]. VarBuffer_tickCount liveHeap b = Inr (?tk b)"
    using f(4) f(5) ne by auto
  with unfrozen_read_second_in_order
    [of liveReader "\<lparr>s_sharedMem = liveData, s_offset = 0\<rparr>" liveHeap "[?b0, ?b1]" ?tk] f(1) f(2) f(3) f(6)
  obtain b top where bt: "IRSDK_getVarBufferLatest liveHeap liveReader = Inr (Some b)"
    "b \<in> set [?b0, ?b1]" "top \<in> set [?b0, ?b1]" "top \<noteq> b" "?tk b \<le> ?tk top"
    "\<forall>key vh. sdk_varHeadersDict liveReader key = Some vh \<longrightarrow>
            IRSDK_get liveHeap liveReader key = bindR (readVariable liveHeap b vh) (\<lambda>v. Inr (Value v))"
    by auto
  have "b = ?b0"
  proof (rule ccontr)
    assume "b \<noteq> ?b0"
    with bt(2) have b1: "b = ?b1" by simp
    with bt(3) bt(4) have "top = ?b0" by auto
    with bt(5) b1 ne show False by simp
  qed
  with bt(1) bt(6) f(7) have "IRSDK_getVarBufferLatest liveHeap liveReader = Inr (Some ?b0)"
    "IRSDK_get liveHeap liveReader (js ''Speed'')
       = bindR (readVariable liveHeap ?b0 \<lparr>s_sharedMem = liveData, s_offset = 112\<rparr>) (\<lambda>v. Inr (Value v))"
    by blast+
  with f show ?thesis by simp
qed

section \<open>Extracting a section of the session text\<close>














end
